theory Spec2Isabelle
  imports Complex_Main "HOL-Library.Sublist" "HOL-Library.AList"
begin

section \<open>Python values and errors\<close>

text \<open>
  The optimizer passes of \<^verbatim>\<open>hls4ml/model/optimizer/passes/qkeras.py\<close> are embedded as
  functions that return either a Python exception (\<open>Inl\<close>) or the state they leave behind
  (\<open>Inr\<close>). Every attribute access, subscript and call of the source that can raise is a
  branch of the model.
\<close>

datatype error =
    UnboundLocalError
  | AttributeError
  | KeyError
  | IndexError
  | TypeError
  | ValueError
  | GraphError

subsection \<open>Strings\<close>

text \<open>Python's \<^verbatim>\<open>a in t\<close> on two strings: \<open>a\<close> occurs in \<open>t\<close> as a contiguous piece.\<close>

fun str_in :: "string \<Rightarrow> string \<Rightarrow> bool" where
  "str_in a [] = (a = [])"
| "str_in a (c # t) = (prefix a (c # t) \<or> str_in a t)"

text \<open>Python's \<^verbatim>\<open>pstr.replace('>', mode)\<close>: every occurrence of the character is replaced.\<close>

definition replace_gt :: "string \<Rightarrow> string \<Rightarrow> string" where
  "replace_gt pstr mode = concat (map (\<lambda>c. if c = CHR ''>'' then mode else [c]) pstr)"

text \<open>Python's \<^verbatim>\<open>str\<close> of an integer, in decimal.\<close>

fun str_nat :: "nat \<Rightarrow> string" where
  "str_nat n = (if n < 10 then [''0123456789'' ! n]
                else str_nat (n div 10) @ [''0123456789'' ! (n mod 10)])"

definition str_int :: "int \<Rightarrow> string" where
  "str_int i = (if i < 0 then CHR ''-'' # str_nat (nat (- i)) else str_nat (nat i))"

text \<open>Python's \<^verbatim>\<open>sep.join(parts)\<close>.\<close>

fun join :: "string \<Rightarrow> string list \<Rightarrow> string" where
  "join sep [] = []"
| "join sep [p] = p"
| "join sep (p # q # ps) = p @ sep @ join sep (q # ps)"

section \<open>Numeric type descriptors\<close>

text \<open>
  Modelled from the spec: the precision classes \<^verbatim>\<open>IntegerPrecisionType\<close> and
  \<^verbatim>\<open>FixedPrecisionType\<close> are imported from \<^verbatim>\<open>hls_model\<close>, which is not among the
  sources. The data model describes an integer kind (bit width, signed flag) and a
  fixed-point kind (total width, integer-bit count, signed flag), each optionally carrying
  a rounding mode, a saturation mode and a saturation bit count, and a string fallback.
  The constructor arguments are in the order in which \<^verbatim>\<open>transform\<close> passes them.
  Python does not type the field: \<open>OtherPrecision\<close> stands for any other value found
  there, such as \<^verbatim>\<open>None\<close> or a number, which is neither of the two classes nor a
  string; it carries the text that \<^verbatim>\<open>str\<close> gives for it and has no method
  \<^verbatim>\<open>replace\<close>.
\<close>

datatype precision =
    IntegerPrecisionType int bool "string option" "string option" "int option"
  | FixedPrecisionType int int bool "string option" "string option" "int option"
  | StrPrecision string
  | OtherPrecision string

text \<open>
  Modelled from the spec: the text of a structured precision (its \<^verbatim>\<open>__str__\<close>, also in
  \<^verbatim>\<open>hls_model\<close>). The spec gives the bracketed form
  \<^verbatim>\<open>...<width, intbits, rounding, saturation, satbits>\<close> and the example
  \<^verbatim>\<open>fixed<16,6>\<close> becoming \<^verbatim>\<open>fixed<16,6,ROUND_CONV>\<close>: the fields that are set,
  separated by commas, unset ones left out. The text of a string is the string itself.
\<close>

definition mode_fields :: "string option \<Rightarrow> string option \<Rightarrow> int option \<Rightarrow> string list" where
  "mode_fields r sm sb =
     (case r of None \<Rightarrow> [] | Some x \<Rightarrow> [x]) @
     (case sm of None \<Rightarrow> [] | Some x \<Rightarrow> [x]) @
     (case sb of None \<Rightarrow> [] | Some n \<Rightarrow> [str_int n])"

fun precision_str :: "precision \<Rightarrow> string" where
  "precision_str (IntegerPrecisionType w s r sm sb) =
     (if s then ''ap_int<'' else ''ap_uint<'') @ join '','' (str_int w # mode_fields r sm sb) @ ''>''"
| "precision_str (FixedPrecisionType w i s r sm sb) =
     (if s then ''ap_fixed<'' else ''ap_ufixed<'') @
     join '','' (str_int w # str_int i # mode_fields r sm sb) @ ''>''"
| "precision_str (StrPrecision p) = p"
| "precision_str (OtherPrecision t) = t"

section \<open>Nodes, weights and quantizers\<close>

text \<open>
  Tensors (numpy arrays) are one-dimensional arrays over an element type \<open>'a\<close> with the
  arithmetic the passes use: the per-channel vectors of scale and bias. The element-wise
  operators follow numpy's broadcasting rule for one dimension: the lengths are equal, or
  one of them is one and that element is repeated; anything else raises \<^verbatim>\<open>ValueError\<close>.
\<close>

definition broadcast :: "('a \<Rightarrow> 'a \<Rightarrow> 'a) \<Rightarrow> 'a list \<Rightarrow> 'a list \<Rightarrow> error + 'a list" where
  "broadcast f xs ys =
     (if length xs = length ys then Inr (map2 f xs ys)
      else case xs of
        [x] \<Rightarrow> Inr (map (f x) ys)
      | _ \<Rightarrow> (case ys of
          [y] \<Rightarrow> Inr (map (\<lambda>x. f x y) xs)
        | _ \<Rightarrow> Inl ValueError))"

definition np_mul :: "'a::times list \<Rightarrow> 'a list \<Rightarrow> error + 'a list" where
  "np_mul xs ys = broadcast (\<lambda>x y. x * y) xs ys"

definition np_add :: "'a::plus list \<Rightarrow> 'a list \<Rightarrow> error + 'a list" where
  "np_add xs ys = broadcast (\<lambda>x y. x + y) xs ys"

text \<open>\<^verbatim>\<open>np.zeros(scale.shape)\<close>.\<close>

definition np_zeros_like :: "'a::zero list \<Rightarrow> 'a list" where
  "np_zeros_like scale = replicate (length scale) 0"

text \<open>A Python value that \<^verbatim>\<open>alpha\<close> can hold is \<^verbatim>\<open>None\<close>, a number or a string
  such as \<^verbatim>\<open>'auto'\<close>.\<close>

datatype pyval = PyNone | PyNum real | PyStr string

text \<open>
  A QKeras quantizer (library object \<^verbatim>\<open>quantizer_fn\<close>): its configuration dictionary
  and what its class computes from a configuration and a tensor, namely the quantized
  tensor and the \<^verbatim>\<open>scale\<close> the call leaves in the object. \<^verbatim>\<open>from_config\<close> builds
  an object of the same class from a configuration.
\<close>

record 'a qkeras_quantizer =
  get_config :: "(string \<times> pyval) list"
  quantize :: "(string \<times> pyval) list \<Rightarrow> 'a list \<Rightarrow> 'a list \<times> 'a list"

definition from_config :: "'a qkeras_quantizer \<Rightarrow> (string \<times> pyval) list \<Rightarrow> 'a qkeras_quantizer" where
  "from_config q qcfg = q\<lparr>get_config := qcfg\<rparr>"

text \<open>
  Modelled from the spec: the quantizer object of hls4ml (its class is not among the
  sources): a function from tensor to quantized tensor, which may consult its current
  \<^verbatim>\<open>quantizer_fn\<close>, the optional attributes \<^verbatim>\<open>quantizer_fn\<close> and \<^verbatim>\<open>alpha\<close>
  (\<open>None\<close>: the object has no such attribute).
\<close>

record 'a quantizer =
  quantizer_fn :: "'a qkeras_quantizer option"
  alpha :: "pyval option"
  call :: "'a qkeras_quantizer option \<Rightarrow> 'a list \<Rightarrow> 'a list"

text \<open>Modelled from the spec: a weight entry holds \<^verbatim>\<open>data\<close>, optionally
  \<^verbatim>\<open>data_unquantized\<close> and optionally a quantizer.\<close>

record 'a weight_entry =
  data :: "'a list"
  data_unquantized :: "'a list option"
  quantizer :: "'a quantizer option"

text \<open>Modelled from the spec: the attribute mapping holds arbitrary values; those that
  the passes read or write are \<^verbatim>\<open>None\<close>, integers, strings, lists of tensor references,
  precisions and quantizer objects.\<close>

datatype 'a attr =
    AttrNone
  | AttrInt int
  | AttrStr string
  | AttrStrs "string list"
  | AttrPrecision precision
  | AttrQuantizer "'a quantizer"

text \<open>
  Modelled from the spec: a node has a class (\<open>class_name\<close> is
  \<^verbatim>\<open>node.__class__.__name__\<close>), a unique name, input and output tensor references, an
  attribute mapping, weight entries keyed by role, and the descriptor of its output
  variable (\<open>precision\<close> is \<^verbatim>\<open>node.get_output_variable().type.precision\<close>, with the
  variable's shape and dimension names).
\<close>

record 'a node =
  class_name :: string
  name :: string
  inputs :: "string list"
  outputs :: "string list"
  attributes :: "(string \<times> 'a attr) list"
  weights :: "(string \<times> 'a weight_entry) list"
  precision :: precision
  shape :: "nat list"
  dim_names :: "string list"

text \<open>The test \<^verbatim>\<open>v is None\<close> on an attribute value.\<close>

fun is_None :: "'a attr \<Rightarrow> bool" where
  "is_None AttrNone = True"
| "is_None _ = False"

text \<open>Modelled from the spec: \<^verbatim>\<open>getAttribute\<close> (a missing key reads as \<^verbatim>\<open>None\<close>)
  and \<^verbatim>\<open>setAttribute\<close>.\<close>

definition get_attr :: "'a node \<Rightarrow> string \<Rightarrow> 'a attr" where
  "get_attr node key = (case map_of (attributes node) key of None \<Rightarrow> AttrNone | Some v \<Rightarrow> v)"

definition set_attr :: "'a node \<Rightarrow> string \<Rightarrow> 'a attr \<Rightarrow> 'a node" where
  "set_attr node key v = node\<lparr>attributes := AList.update key v (attributes node)\<rparr>"

section \<open>OutputRoundingSaturationMode\<close>

text \<open>The class attributes \<^verbatim>\<open>layers\<close>, \<^verbatim>\<open>rounding_mode\<close>, \<^verbatim>\<open>saturation_mode\<close>
  and \<^verbatim>\<open>saturation_bits\<close>.\<close>

record OutputRoundingSaturationMode =
  layers :: "string list"
  rounding_mode :: "string option"
  saturation_mode :: "string option"
  saturation_bits :: "int option"

definition OutputRoundingSaturationMode_match ::
  "OutputRoundingSaturationMode \<Rightarrow> 'a node \<Rightarrow> bool" where
  "OutputRoundingSaturationMode_match self node =
     (let layer_match = (class_name node \<in> set (layers self) \<or> name node \<in> set (layers self));
          t = precision_str (precision node);
          rs_match = False;
          rs_match = (case rounding_mode self of None \<Rightarrow> rs_match
                      | Some r \<Rightarrow> rs_match \<or> \<not> str_in r t);
          rs_match = (case saturation_mode self of None \<Rightarrow> rs_match
                      | Some s \<Rightarrow> rs_match \<or> \<not> str_in s t)
      in layer_match \<and> rs_match)"

definition precision_string_modify :: "OutputRoundingSaturationMode \<Rightarrow> string \<Rightarrow> string" where
  "precision_string_modify self pstr =
     (let mode = [];
          mode = (case rounding_mode self of None \<Rightarrow> mode | Some r \<Rightarrow> mode @ '','' @ r);
          mode = (case saturation_mode self of None \<Rightarrow> mode | Some s \<Rightarrow> mode @ '','' @ s);
          mode = (case saturation_bits self of None \<Rightarrow> mode | Some n \<Rightarrow> mode @ '','' @ str_int n);
          mode = mode @ ''>''
      in replace_gt pstr mode)"

text \<open>
  \<^verbatim>\<open>transform\<close> has two local variables: the integer branch binds
  \<^verbatim>\<open>newprecision\<close>, the two other branches bind \<^verbatim>\<open>newtype\<close>, and the statements
  after the branches read \<^verbatim>\<open>newtype\<close>. Reading an unbound local raises
  \<^verbatim>\<open>UnboundLocalError\<close>. The last branch takes whatever is neither of the two
  classes and calls \<^verbatim>\<open>pstr.replace\<close> on it in \<^verbatim>\<open>precision_string_modify\<close>: on a
  value that is not a string the attribute lookup raises \<^verbatim>\<open>AttributeError\<close>. The
  result is the node and the returned flag.
\<close>

definition OutputRoundingSaturationMode_transform ::
  "OutputRoundingSaturationMode \<Rightarrow> 'a node \<Rightarrow> error + ('a node \<times> bool)" where
  "OutputRoundingSaturationMode_transform self node =
     (let oldtype = precision node
      in case (case oldtype of
                 IntegerPrecisionType w s r sm sb \<Rightarrow>
                   Inr (Some (IntegerPrecisionType w s (rounding_mode self) (saturation_mode self)
                          (saturation_bits self)), None)
               | FixedPrecisionType w i s r sm sb \<Rightarrow>
                   Inr (None, Some (FixedPrecisionType w i s (rounding_mode self)
                          (saturation_mode self) (saturation_bits self)))
               | StrPrecision pstr \<Rightarrow>
                   Inr (None, Some (StrPrecision (precision_string_modify self pstr)))
               | OtherPrecision t \<Rightarrow> Inl AttributeError) of
           Inl e \<Rightarrow> Inl e
         | Inr (newprecision, newtype) \<Rightarrow>
             (case newtype of
                None \<Rightarrow> Inl UnboundLocalError
              | Some nt \<Rightarrow>
                  (let node = node\<lparr>precision := nt\<rparr>;
                       node = (if \<not> is_None (get_attr node ''accum_t'')
                               then set_attr node ''accum_t'' (AttrPrecision nt) else node)
                   in Inr (node, False))))"

section \<open>The graph\<close>

text \<open>
  Modelled from the spec: the model is the ordered list of its nodes, which it owns; node
  names are unique. The precision that a newly created output variable receives is the
  model's default.
\<close>

record 'a model =
  graph :: "'a node list"
  default_precision :: precision

text \<open>Passes mutate node objects that are part of the graph: the node of that name is
  replaced by its new state.\<close>

definition update_node :: "'a model \<Rightarrow> 'a node \<Rightarrow> 'a model" where
  "update_node model node =
     model\<lparr>graph := map (\<lambda>n. if name n = name node then node else n) (graph model)\<rparr>"

text \<open>Modelled from the spec: the lookup of the node that owns an output tensor (part of
  the graph service, not among the sources): the first node of the graph whose first
  output is \<open>t\<close>.\<close>

definition producer :: "'a model \<Rightarrow> string \<Rightarrow> 'a node option" where
  "producer model t = find (\<lambda>n. take 1 (outputs n) = [t]) (graph model)"

text \<open>Modelled from the spec: \<^verbatim>\<open>getInputNode(node)\<close>, the single-predecessor
  convenience: the node that produces the first input, \<^verbatim>\<open>None\<close> when there is none.\<close>

definition get_input_node :: "'a model \<Rightarrow> 'a node \<Rightarrow> 'a node option" where
  "get_input_node model node =
     (case inputs node of [] \<Rightarrow> None | i # _ \<Rightarrow> producer model i)"

text \<open>\<^verbatim>\<open>ApplyAlpha.initialize\<close>: the output variable takes the shape and the dimension
  names of the input variable. The input variable (\<^verbatim>\<open>get_input_variable\<close>, not among
  the sources) is the output variable of the producer of the first input.\<close>

definition ApplyAlpha_initialize :: "'a model \<Rightarrow> 'a node \<Rightarrow> error + 'a node" where
  "ApplyAlpha_initialize model self =
     (case inputs self of
        [] \<Rightarrow> Inl IndexError
      | i # _ \<Rightarrow>
          (case producer model i of
             None \<Rightarrow> Inl KeyError
           | Some inp \<Rightarrow> Inr (self\<lparr>shape := shape inp, dim_names := dim_names inp\<rparr>)))"

text \<open>Modelled from the spec: \<^verbatim>\<open>addWeight(node, role, data)\<close> stores a weight entry
  with that data, no quantizer and no pre-quantization copy.\<close>

definition add_weights_variable :: "'a node \<Rightarrow> string \<Rightarrow> 'a list \<Rightarrow> 'a node" where
  "add_weights_variable self role d =
     self\<lparr>weights := AList.update role
        \<lparr>data = d, data_unquantized = None, quantizer = None\<rparr> (weights self)\<rparr>"

text \<open>\<^verbatim>\<open>ApplyAlpha.add_weights\<close>.\<close>

definition add_weights :: "'a node \<Rightarrow> 'a list \<Rightarrow> 'a list \<Rightarrow> 'a node" where
  "add_weights self scale bias =
     add_weights_variable (add_weights_variable self ''scale'' scale) ''bias'' bias"

text \<open>
  Modelled from the spec: \<^verbatim>\<open>createNode(kind, name, attributes, inputs)\<close>. The new node
  has the given kind, name, attributes and inputs, one output named as the node, no
  weights, and is initialised by its class. Only the kind that this file registers,
  \<^verbatim>\<open>ApplyAlpha\<close>, is modelled; any other kind is a failed lookup.
\<close>

definition make_node ::
  "'a model \<Rightarrow> string \<Rightarrow> string \<Rightarrow> (string \<times> 'a attr) list \<Rightarrow> string list \<Rightarrow> error + 'a node" where
  "make_node model kind nm attrs ins =
     (if kind = ''ApplyAlpha''
      then ApplyAlpha_initialize model
             \<lparr>class_name = kind, name = nm, inputs = ins, outputs = [nm], attributes = attrs,
              weights = [], precision = default_precision model, shape = [], dim_names = []\<rparr>
      else Inl KeyError)"

text \<open>Modelled from the spec: edge rewiring of the graph service (not among the sources)
  replaces the tensor \<open>old\<close> by \<open>new\<close> among the inputs of a node; insertion places a node
  right after the producer of a tensor.\<close>

definition rewire :: "string \<Rightarrow> string \<Rightarrow> 'a node \<Rightarrow> 'a node" where
  "rewire old new n = n\<lparr>inputs := map (\<lambda>x. if x = old then new else x) (inputs n)\<rparr>"

fun insert_after :: "string \<Rightarrow> 'a node \<Rightarrow> 'a node list \<Rightarrow> 'a node list" where
  "insert_after t node [] = []"
| "insert_after t node (n # ns) =
     (if take 1 (outputs n) = [t] then n # node # ns else n # insert_after t node ns)"

text \<open>
  Modelled from the spec: \<^verbatim>\<open>insertNode(node)\<close> inserts the node immediately
  downstream of the producer of its input and rewires all consumers of that output to
  consume the new node's output. Without a producer the service raises.
\<close>

definition insert_node :: "'a model \<Rightarrow> 'a node \<Rightarrow> error + 'a model" where
  "insert_node model node =
     (case inputs node of
        [] \<Rightarrow> Inl IndexError
      | i # _ \<Rightarrow>
          (case outputs node of
             [] \<Rightarrow> Inl IndexError
           | out # _ \<Rightarrow>
               (case producer model i of
                  None \<Rightarrow> Inl GraphError
                | Some prev \<Rightarrow>
                    Inr (model\<lparr>graph := insert_after i node (map (rewire i out) (graph model))\<rparr>))))"

text \<open>
  Modelled from the spec: \<^verbatim>\<open>removeNode(node, rewire)\<close> removes the node from the
  graph; with \<^verbatim>\<open>rewire\<close> its consumers are rewired to the upstream node's output, which
  is the removed node's first input.
\<close>

definition remove_node :: "'a model \<Rightarrow> 'a node \<Rightarrow> bool \<Rightarrow> error + 'a model" where
  "remove_node model node rw =
     (let rest = filter (\<lambda>n. name n \<noteq> name node) (graph model)
      in if rw
         then (case inputs node of
                 [] \<Rightarrow> Inl IndexError
               | i # _ \<Rightarrow>
                   (case outputs node of
                      [] \<Rightarrow> Inl IndexError
                    | out # _ \<Rightarrow> Inr (model\<lparr>graph := map (rewire out i) rest\<rparr>)))
         else Inr (model\<lparr>graph := rest\<rparr>))"

section \<open>QKerasFactorizeAlpha\<close>

text \<open>\<^verbatim>\<open>hasattr(q, 'alpha')\<close> and \<^verbatim>\<open>q.alpha != 1\<close> for an attribute value: only a
  quantizer object can carry \<^verbatim>\<open>alpha\<close>; \<^verbatim>\<open>None\<close> and strings differ from 1.\<close>

fun hasattr_alpha :: "'a attr \<Rightarrow> bool" where
  "hasattr_alpha (AttrQuantizer q) = (alpha q \<noteq> None)"
| "hasattr_alpha _ = False"

fun alpha_ne_1 :: "'a attr \<Rightarrow> bool" where
  "alpha_ne_1 (AttrQuantizer q) = (case alpha q of None \<Rightarrow> False | Some a \<Rightarrow> a \<noteq> PyNum 1)"
| "alpha_ne_1 _ = False"

definition QKerasFactorizeAlpha_match :: "'a node \<Rightarrow> bool" where
  "QKerasFactorizeAlpha_match node =
     (let q_layer = (class_name node \<in> set [''Dense'', ''Conv1D'', ''Conv2D'']);
          has_w_quant = (\<not> is_None (get_attr node ''weight_quantizer''));
          has_b_quant = (\<not> is_None (get_attr node ''bias_quantizer''));
          (has_w_alpha, has_b_alpha) = (False, False);
          has_w_alpha =
            (if has_w_quant
             then (if hasattr_alpha (get_attr node ''weight_quantizer'')
                   then alpha_ne_1 (get_attr node ''weight_quantizer'') else False)
             else has_w_alpha);
          has_b_alpha =
            (if has_b_quant
             then (if hasattr_alpha (get_attr node ''bias_quantizer'')
                   then alpha_ne_1 (get_attr node ''bias_quantizer'') else False)
             else has_b_alpha);
          is_match = (q_layer \<and> ((has_w_quant \<and> has_w_alpha) \<or> (has_b_quant \<and> has_b_alpha)))
      in is_match)"

text \<open>
  \<^verbatim>\<open>node.attributes[key].alpha = 1\<close>: a missing key is a \<^verbatim>\<open>KeyError\<close>; a quantizer
  object takes the attribute; a value of a built-in type cannot take it
  (\<^verbatim>\<open>AttributeError\<close>), and the model treats every value that is not a quantizer so.
\<close>

definition set_alpha_1 :: "'a node \<Rightarrow> string \<Rightarrow> error + 'a node" where
  "set_alpha_1 node key =
     (case map_of (attributes node) key of
        None \<Rightarrow> Inl KeyError
      | Some (AttrQuantizer q) \<Rightarrow>
          Inr (node\<lparr>attributes :=
                 AList.update key (AttrQuantizer (q\<lparr>alpha := Some (PyNum 1)\<rparr>)) (attributes node)\<rparr>)
      | Some _ \<Rightarrow> Inl AttributeError)"

text \<open>\<^verbatim>\<open>node.get_attr('name') + '_alpha'\<close>: only a string can be extended by a string.\<close>

definition attr_plus_str :: "'a attr \<Rightarrow> string \<Rightarrow> error + 'a attr" where
  "attr_plus_str v sfx = (case v of AttrStr s \<Rightarrow> Inr (AttrStr (s @ sfx)) | _ \<Rightarrow> Inl TypeError)"

text \<open>The dictionary \<^verbatim>\<open>attrs\<close> that \<^verbatim>\<open>transform\<close> builds for the new layer,
  given the value computed for its \<^verbatim>\<open>'name'\<close> entry (used to state properties).\<close>

definition alpha_attrs :: "'a node \<Rightarrow> 'a attr \<Rightarrow> (string \<times> 'a attr) list" where
  "alpha_attrs node alpha_name =
     [(''name'', alpha_name),
      (''class_name'', AttrStr ''Alpha''),
      (''inputs'', AttrStrs (outputs node)),
      (''n_in'', get_attr node ''n_out''),
      (''n_filt'', if \<not> is_None (get_attr node ''n_filt'')
                   then get_attr node ''n_filt'' else AttrInt (- 1)),
      (''reuse_factor'', get_attr node ''reuse_factor''),
      (''bias_t'', AttrStr ''ap_fixed<16,6>''),
      (''scale_t'', AttrStr ''ap_fixed<16,6>'')]"

text \<open>
  \<^verbatim>\<open>transform\<close>, statement by statement. It mutates two objects, the node and the
  model, and the result gives the state of both with the returned flag: the model (whose
  graph holds the mutated node and the inserted layer) and the node as the call leaves it.
  The quantizer object of the weight entry and the one under the attribute
  \<^verbatim>\<open>weight_quantizer\<close> are separate values here; nothing proved below depends on
  whether they are one object.
\<close>

definition QKerasFactorizeAlpha_transform ::
  "('a::{zero,one,times,inverse}) model \<Rightarrow> 'a node \<Rightarrow> error + ('a model \<times> 'a node \<times> bool)" where
  "QKerasFactorizeAlpha_transform model node =
     (case map_of (weights node) ''weight'' of
        None \<Rightarrow> Inl KeyError
      | Some w \<Rightarrow>
     (case quantizer w of
        None \<Rightarrow> Inl AttributeError
      | Some hq \<Rightarrow>
     (case quantizer_fn hq of
        None \<Rightarrow> Inl AttributeError
      | Some qfn \<Rightarrow>
     (case data_unquantized w of
        None \<Rightarrow> Inl ValueError
      | Some wdata \<Rightarrow>
     (let (qweights, scale) = quantize qfn (get_config qfn) wdata;
          unscale = map (\<lambda>s. 1 / s) scale
      in case np_mul unscale qweights of
        Inl e \<Rightarrow> Inl e
      | Inr new_weights \<Rightarrow>
     (let qcfg = get_config qfn;
          qcfg = AList.update ''alpha'' (PyNum 1) qcfg;
          hq = hq\<lparr>quantizer_fn := Some (from_config qfn qcfg)\<rparr>;
          w = w\<lparr>quantizer := Some hq\<rparr>;
          w = w\<lparr>data := call hq (quantizer_fn hq) new_weights\<rparr>;
          node = node\<lparr>weights := AList.update ''weight'' w (weights node)\<rparr>;
          has_w_quant = (\<not> is_None (get_attr node ''weight_quantizer''));
          has_b_quant = (\<not> is_None (get_attr node ''bias_quantizer''))
      in case (if has_w_quant then set_alpha_1 node ''weight_quantizer'' else Inr node) of
        Inl e \<Rightarrow> Inl e
      | Inr node \<Rightarrow>
     (case (if has_b_quant then set_alpha_1 node ''bias_quantizer'' else Inr node) of
        Inl e \<Rightarrow> Inl e
      | Inr node \<Rightarrow>
     (case attr_plus_str (get_attr node ''name'') ''_alpha'' of
        Inl e \<Rightarrow> Inl e
      | Inr alpha_name \<Rightarrow>
     (let attrs =
            [(''name'', alpha_name),
             (''class_name'', AttrStr ''Alpha''),
             (''inputs'', AttrStrs (outputs node)),
             (''n_in'', get_attr node ''n_out''),
             (''n_filt'', if \<not> is_None (get_attr node ''n_filt'')
                          then get_attr node ''n_filt'' else AttrInt (- 1)),
             (''reuse_factor'', get_attr node ''reuse_factor''),
             (''bias_t'', AttrStr ''ap_fixed<16,6>''),
             (''scale_t'', AttrStr ''ap_fixed<16,6>'')];
          model = update_node model node
      in case make_node model ''ApplyAlpha'' (name node @ ''_alpha'') attrs (outputs node) of
        Inl e \<Rightarrow> Inl e
      | Inr alpha_layer \<Rightarrow>
     (let alpha_layer = add_weights alpha_layer scale (np_zeros_like scale)
      in case insert_node model alpha_layer of
        Inl e \<Rightarrow> Inl e
      | Inr model \<Rightarrow> Inr (model, node, True)))))))))))"

section \<open>FuseConsecutiveBatchNormalization\<close>

text \<open>\<^verbatim>\<open>isinstance(node, BatchNormalization)\<close>: the class itself or its subclass
  \<^verbatim>\<open>ApplyAlpha\<close>, which this file declares.\<close>

definition is_BatchNormalization :: "'a node \<Rightarrow> bool" where
  "is_BatchNormalization node = (class_name node \<in> set [''BatchNormalization'', ''ApplyAlpha''])"

text \<open>\<^verbatim>\<open>match\<close> reads the input node through the model that the node belongs to.\<close>

definition FuseConsecutiveBatchNormalization_match :: "'a model \<Rightarrow> 'a node \<Rightarrow> bool" where
  "FuseConsecutiveBatchNormalization_match model node =
     (is_BatchNormalization node \<and>
      (case get_input_node model node of None \<Rightarrow> False | Some inp \<Rightarrow> is_BatchNormalization inp))"

text \<open>
  \<^verbatim>\<open>transform\<close>: the four tensors are read, then \<^verbatim>\<open>s2 = s0 * s1\<close> and
  \<^verbatim>\<open>b2 = s1 * b0 + b1\<close> are computed in this order of operands, written to the input
  node, and the node is removed with rewiring. A missing input node is \<^verbatim>\<open>None\<close>, whose
  \<^verbatim>\<open>weights\<close> cannot be read.
\<close>

definition FuseConsecutiveBatchNormalization_transform ::
  "('a::{times,plus}) model \<Rightarrow> 'a node \<Rightarrow> error + ('a model \<times> bool)" where
  "FuseConsecutiveBatchNormalization_transform model node =
     (case get_input_node model node of
        None \<Rightarrow> Inl AttributeError
      | Some bn0 \<Rightarrow>
     (let bn1 = node in
      case map_of (weights bn0) ''scale'' of
        None \<Rightarrow> Inl KeyError
      | Some ws0 \<Rightarrow>
     (case map_of (weights bn0) ''bias'' of
        None \<Rightarrow> Inl KeyError
      | Some wb0 \<Rightarrow>
     (case map_of (weights bn1) ''scale'' of
        None \<Rightarrow> Inl KeyError
      | Some ws1 \<Rightarrow>
     (case map_of (weights bn1) ''bias'' of
        None \<Rightarrow> Inl KeyError
      | Some wb1 \<Rightarrow>
     (let s0 = data ws0; b0 = data wb0; s1 = data ws1; b1 = data wb1
      in case np_mul s0 s1 of
        Inl e \<Rightarrow> Inl e
      | Inr s2 \<Rightarrow>
     (case np_mul s1 b0 of
        Inl e \<Rightarrow> Inl e
      | Inr s1b0 \<Rightarrow>
     (case np_add s1b0 b1 of
        Inl e \<Rightarrow> Inl e
      | Inr b2 \<Rightarrow>
     (let bn0 = bn0\<lparr>weights := AList.update ''scale'' (ws0\<lparr>data := s2\<rparr>) (weights bn0)\<rparr>;
          bn0 = bn0\<lparr>weights := AList.update ''bias'' (wb0\<lparr>data := b2\<rparr>) (weights bn0)\<rparr>;
          model = update_node model bn0
      in case remove_node model node True of
        Inl e \<Rightarrow> Inl e
      | Inr model \<Rightarrow> Inr (model, True))))))))))"

text \<open>
  The affine map of a node with weights \<open>(s, b)\<close>, \<^verbatim>\<open>s * x + b\<close>, as the spec writes
  it in its correctness invariant, with the element-wise operators of the tensors.
\<close>

definition affine :: "('a::{times,plus}) list \<Rightarrow> 'a list \<Rightarrow> 'a list \<Rightarrow> error + 'a list" where
  "affine s b x = (case np_mul s x of Inl e \<Rightarrow> Inl e | Inr sx \<Rightarrow> np_add sx b)"

text \<open>
  The laws under which an element arithmetic is exact for the fusion: multiplication is
  commutative and associative, addition is associative, and multiplication distributes
  over addition from the left. Integers, rationals and reals satisfy them.
\<close>

definition exact_arithmetic :: "('a \<Rightarrow> 'a \<Rightarrow> 'a) \<Rightarrow> ('a \<Rightarrow> 'a \<Rightarrow> 'a) \<Rightarrow> bool" where
  "exact_arithmetic mul add \<longleftrightarrow>
     (\<forall>a b. mul a b = mul b a) \<and>
     (\<forall>a b c. mul (mul a b) c = mul a (mul b c)) \<and>
     (\<forall>a b c. add (add a b) c = add a (add b c)) \<and>
     (\<forall>a b c. mul a (add b c) = add (mul a b) (mul a c))"


text \<open>Reading a tensor at an index under broadcasting: a tensor of length one gives its
  element at every index.\<close>

definition bget :: "'a list \<Rightarrow> nat \<Rightarrow> 'a" where
  "bget xs k = (if length xs = 1 then xs ! 0 else xs ! k)"

text \<open>The length of a broadcast result, when two lengths can be broadcast together, and
  the indices at which a tensor of a given length can be read under broadcasting.\<close>

definition blen :: "nat \<Rightarrow> nat \<Rightarrow> nat" where
  "blen a b = (if a = 1 then b else a)"

definition compat :: "nat \<Rightarrow> nat \<Rightarrow> bool" where
  "compat a b \<longleftrightarrow> a = b \<or> a = 1 \<or> b = 1"

definition valid :: "nat \<Rightarrow> nat \<Rightarrow> bool" where
  "valid n k \<longleftrightarrow> k < n \<or> n = 1"

section \<open>Double precision\<close>

text \<open>
  The elements of a numpy array of dtype \<^verbatim>\<open>float64\<close>: binary floating point with a
  significand of 53 bits. \<open>Double m e\<close> is the number \<open>m * 2 ^ e\<close>, kept with \<open>m\<close> odd (or
  as \<open>Double 0 0\<close>), so that two values are equal exactly when they are the same number.
  A product or a sum is the exact result rounded to 53 significant bits, to nearest
  with ties to even, as IEEE 754 rounds results in the normal range; overflow,
  subnormal numbers, infinities and NaN are not modelled.
\<close>

datatype double = Double int int

function bit_length :: "int \<Rightarrow> nat" where
  "bit_length n = (if n \<le> 0 then 0 else Suc (bit_length (n div 2)))"
  by pat_completeness auto
termination
  by (relation "measure nat") auto

function normalize_double :: "int \<Rightarrow> int \<Rightarrow> double" where
  "normalize_double m e =
     (if m = 0 then Double 0 0
      else if even m then normalize_double (m div 2) (e + 1)
      else Double m e)"
  by pat_completeness auto
termination
  by (relation "measure (\<lambda>(m, e). nat \<bar>m\<bar>)") auto

definition round_double :: "int \<Rightarrow> int \<Rightarrow> double" where
  "round_double m e =
     (let n = bit_length \<bar>m\<bar>
      in if n \<le> 53 then normalize_double m e
         else (let k = n - 53;
                   q = m div 2 ^ k;
                   r = m mod 2 ^ k;
                   q = (if r > 2 ^ (k - 1) \<or> (r = 2 ^ (k - 1) \<and> odd q) then q + 1 else q)
               in normalize_double q (e + int k)))"

instantiation double :: "{times, plus}"
begin

fun times_double :: "double \<Rightarrow> double \<Rightarrow> double" where
  "times_double (Double m1 e1) (Double m2 e2) = round_double (m1 * m2) (e1 + e2)"

fun plus_double :: "double \<Rightarrow> double \<Rightarrow> double" where
  "plus_double (Double m1 e1) (Double m2 e2) =
     (let e = min e1 e2
      in round_double (m1 * 2 ^ nat (e1 - e) + m2 * 2 ^ nat (e2 - e)) e)"

instance ..

end


section \<open>Example inputs\<close>

text \<open>A dense layer with a sixteen-bit fixed-point output, and a configuration that asks
  for convergent rounding on dense layers.\<close>

definition dense_node :: "real node" where
  "dense_node = \<lparr>class_name = ''Dense'', name = ''fc1'', inputs = [''input1''],
     outputs = [''fc1''], attributes = [], weights = [],
     precision = FixedPrecisionType 16 6 True None None None, shape = [4],
     dim_names = [''N_OUT'']\<rparr>"

definition round_conv :: OutputRoundingSaturationMode where
  "round_conv = \<lparr>layers = [''Dense''], rounding_mode = Some ''AP_RND_CONV'',
     saturation_mode = None, saturation_bits = None\<rparr>"

text \<open>
  A dense layer whose weight quantizer has \<^verbatim>\<open>alpha = 'auto'\<close>, followed by an
  activation that consumes its output; the QKeras quantizer of the example doubles the
  weights and records the scale 2 unless its \<^verbatim>\<open>alpha\<close> is 1. The last node has a bias
  quantizer with \<^verbatim>\<open>alpha = 'auto'\<close> only, and a weight entry without quantizer.
\<close>

definition auto_qkeras :: "real qkeras_quantizer" where
  "auto_qkeras = \<lparr>get_config = [(''alpha'', PyStr ''auto'')],
     quantize = (\<lambda>cfg x. if map_of cfg ''alpha'' = Some (PyNum 1) then (x, [1])
                          else (map (\<lambda>v. 2 * v) x, [2]))\<rparr>"

definition auto_quantizer :: "real quantizer" where
  "auto_quantizer = \<lparr>quantizer_fn = Some auto_qkeras, alpha = Some (PyStr ''auto''),
     call = (\<lambda>fn x. x)\<rparr>"

definition qdense_node :: "real node" where
  "qdense_node = \<lparr>class_name = ''Dense'', name = ''fc1'', inputs = [''input1''],
     outputs = [''fc1''],
     attributes = [(''name'', AttrStr ''fc1''), (''n_out'', AttrInt 2),
                   (''weight_quantizer'', AttrQuantizer auto_quantizer)],
     weights = [(''weight'', \<lparr>data = [2, 4], data_unquantized = Some [1, 2],
                               quantizer = Some auto_quantizer\<rparr>)],
     precision = FixedPrecisionType 16 6 True None None None, shape = [2],
     dim_names = [''N_OUT'']\<rparr>"

definition relu_node :: "real node" where
  "relu_node = \<lparr>class_name = ''Activation'', name = ''relu1'', inputs = [''fc1''],
     outputs = [''relu1''], attributes = [(''name'', AttrStr ''relu1'')], weights = [],
     precision = FixedPrecisionType 16 6 True None None None, shape = [2],
     dim_names = [''N_OUT'']\<rparr>"

definition qmodel :: "real model" where
  "qmodel = \<lparr>graph = [qdense_node, relu_node],
     default_precision = FixedPrecisionType 16 6 True None None None\<rparr>"

definition bias_only_node :: "real node" where
  "bias_only_node = qdense_node\<lparr>
     attributes := [(''name'', AttrStr ''fc1''), (''n_out'', AttrInt 2),
                    (''bias_quantizer'', AttrQuantizer auto_quantizer)],
     weights := [(''weight'', \<lparr>data = [1, 2], data_unquantized = Some [1, 2],
                                quantizer = None\<rparr>)]\<rparr>"

text \<open>
  Two consecutive batch normalisations with \<open>(s0, b0) = (2, 1)\<close> and \<open>(s1, b1) = (3, 0)\<close>,
  followed by an activation.
\<close>

definition bn_weights :: "real \<Rightarrow> real \<Rightarrow> (string \<times> real weight_entry) list" where
  "bn_weights s b =
     [(''scale'', \<lparr>data = [s], data_unquantized = None, quantizer = None\<rparr>),
      (''bias'', \<lparr>data = [b], data_unquantized = None, quantizer = None\<rparr>)]"

definition bn0_node :: "real node" where
  "bn0_node = \<lparr>class_name = ''BatchNormalization'', name = ''bn0'', inputs = [''input1''],
     outputs = [''bn0''], attributes = [], weights = bn_weights 2 1,
     precision = FixedPrecisionType 16 6 True None None None, shape = [1],
     dim_names = [''N'']\<rparr>"

definition bn1_node :: "real node" where
  "bn1_node = \<lparr>class_name = ''ApplyAlpha'', name = ''bn1'', inputs = [''bn0''],
     outputs = [''bn1''], attributes = [], weights = bn_weights 3 0,
     precision = FixedPrecisionType 16 6 True None None None, shape = [1],
     dim_names = [''N'']\<rparr>"

definition act_node :: "real node" where
  "act_node = \<lparr>class_name = ''Activation'', name = ''act'', inputs = [''bn1''],
     outputs = [''act''], attributes = [], weights = [],
     precision = FixedPrecisionType 16 6 True None None None, shape = [1],
     dim_names = [''N'']\<rparr>"

definition bn_model :: "real model" where
  "bn_model = \<lparr>graph = [bn0_node, bn1_node, act_node],
     default_precision = FixedPrecisionType 16 6 True None None None\<rparr>"

text \<open>
  The doubles that Python writes \<^verbatim>\<open>0.1\<close>, \<^verbatim>\<open>0.2\<close>, \<^verbatim>\<open>3.0\<close> and \<^verbatim>\<open>5.0\<close>, and
  two consecutive batch normalisations with \<open>(s0, b0) = (0.1, 0.1)\<close> and
  \<open>(s1, b1) = (3.0, 0.2)\<close> followed by an activation.
\<close>

definition double_0_1 :: double where "double_0_1 = Double 3602879701896397 (- 55)"
definition double_0_2 :: double where "double_0_2 = Double 3602879701896397 (- 54)"
definition double_3 :: double where "double_3 = Double 3 0"
definition double_5 :: double where "double_5 = Double 5 0"

definition double_weights :: "double \<Rightarrow> double \<Rightarrow> (string \<times> double weight_entry) list" where
  "double_weights s b =
     [(''scale'', \<lparr>data = [s], data_unquantized = None, quantizer = None\<rparr>),
      (''bias'', \<lparr>data = [b], data_unquantized = None, quantizer = None\<rparr>)]"

definition double_bn0 :: "double node" where
  "double_bn0 = \<lparr>class_name = ''BatchNormalization'', name = ''bn0'', inputs = [''input1''],
     outputs = [''bn0''], attributes = [], weights = double_weights double_0_1 double_0_1,
     precision = FixedPrecisionType 16 6 True None None None, shape = [1],
     dim_names = [''N'']\<rparr>"

definition double_bn1 :: "double node" where
  "double_bn1 = \<lparr>class_name = ''BatchNormalization'', name = ''bn1'', inputs = [''bn0''],
     outputs = [''bn1''], attributes = [], weights = double_weights double_3 double_0_2,
     precision = FixedPrecisionType 16 6 True None None None, shape = [1],
     dim_names = [''N'']\<rparr>"

definition double_act :: "double node" where
  "double_act = \<lparr>class_name = ''Activation'', name = ''act'', inputs = [''bn1''],
     outputs = [''act''], attributes = [], weights = [],
     precision = FixedPrecisionType 16 6 True None None None, shape = [1],
     dim_names = [''N'']\<rparr>"

definition double_model :: "double model" where
  "double_model = \<lparr>graph = [double_bn0, double_bn1, double_act],
     default_precision = FixedPrecisionType 16 6 True None None None\<rparr>"

section \<open>Properties of the string operations\<close>

declare str_nat.simps [simp del]

lemma str_in_iff: "str_in a t \<longleftrightarrow> (\<exists>p q. t = p @ a @ q)"
proof (induction t)
  case Nil
  then show ?case by auto
next
  case (Cons c t)
  show ?case
  proof
    assume "str_in a (c # t)"
    then consider "prefix a (c # t)" | "str_in a t" by auto
    then show "\<exists>p q. c # t = p @ a @ q"
    proof cases
      case 1
      then obtain q where "c # t = a @ q" by (auto simp: prefix_def)
      then have "c # t = [] @ a @ q" by simp
      then show ?thesis by blast
    next
      case 2
      with Cons obtain p q where "t = p @ a @ q" by blast
      then have "c # t = (c # p) @ a @ q" by simp
      then show ?thesis by blast
    qed
  next
    assume "\<exists>p q. c # t = p @ a @ q"
    then obtain p q where pq: "c # t = p @ a @ q" by blast
    show "str_in a (c # t)"
    proof (cases p)
      case Nil
      with pq have "prefix a (c # t)" by (simp add: prefix_def)
      then show ?thesis by simp
    next
      case (Cons d p')
      with pq have "t = p' @ a @ q" by simp
      with Cons.IH have "str_in a t" by blast
      then show ?thesis by simp
    qed
  qed
qed

lemma str_in_appendI: "str_in a (p @ a @ q)"
  by (auto simp: str_in_iff)

lemma replace_gt_absent: "CHR ''>'' \<notin> set pstr \<Longrightarrow> replace_gt pstr mode = pstr"
  unfolding replace_gt_def by (induction pstr) auto

lemma replace_gt_present:
  "CHR ''>'' \<in> set pstr \<Longrightarrow> \<exists>p q. replace_gt pstr mode = p @ mode @ q"
proof -
  assume "CHR ''>'' \<in> set pstr"
  then obtain u v where "pstr = u @ CHR ''>'' # v" by (auto simp: in_set_conv_decomp)
  then have "replace_gt pstr mode = replace_gt u mode @ mode @ replace_gt v mode"
    by (simp add: replace_gt_def)
  then show ?thesis by blast
qed

lemma join_contains: "x \<in> set ps \<Longrightarrow> \<exists>p q. join sep ps = p @ x @ q"
proof (induction sep ps rule: join.induct)
  case (1 sep)
  then show ?case by simp
next
  case (2 sep p)
  then have "join sep [p] = [] @ x @ []" by simp
  then show ?case by blast
next
  case (3 sep p q ps)
  show ?case
  proof (cases "x = p")
    case True
    then have "join sep (p # q # ps) = [] @ x @ (sep @ join sep (q # ps))" by simp
    then show ?thesis by blast
  next
    case False
    with 3 obtain u v where "join sep (q # ps) = u @ x @ v" by auto
    then have "join sep (p # q # ps) = (p @ sep @ u) @ x @ v" by simp
    then show ?thesis by blast
  qed
qed



section \<open>Properties of OutputRoundingSaturationMode\<close>

lemma is_None_iff [simp]: "is_None v \<longleftrightarrow> v = AttrNone"
  by (cases v) simp_all

lemma set_attr_fields [simp]:
  "precision (set_attr n k v) = precision n"
  "class_name (set_attr n k v) = class_name n"
  "name (set_attr n k v) = name n"
  by (simp_all add: set_attr_def)

lemma str_in_precision_str_rounding:
  "str_in r (precision_str (FixedPrecisionType w i s (Some r) sm sb))"
proof -
  have "r \<in> set (str_int w # str_int i # mode_fields (Some r) sm sb)"
    by (simp add: mode_fields_def)
  from join_contains [OF this, of "'',''"] obtain p q
    where "join '','' (str_int w # str_int i # mode_fields (Some r) sm sb) = p @ r @ q" by blast
  then have "precision_str (FixedPrecisionType w i s (Some r) sm sb) =
      ((if s then ''ap_fixed<'' else ''ap_ufixed<'') @ p) @ r @ (q @ ''>'')"
    by simp
  then show ?thesis by (metis str_in_appendI)
qed

lemma str_in_precision_str_saturation:
  "str_in x (precision_str (FixedPrecisionType w i s r (Some x) sb))"
proof -
  have "x \<in> set (str_int w # str_int i # mode_fields r (Some x) sb)"
    by (simp add: mode_fields_def)
  from join_contains [OF this, of "'',''"] obtain p q
    where "join '','' (str_int w # str_int i # mode_fields r (Some x) sb) = p @ x @ q" by blast
  then have "precision_str (FixedPrecisionType w i s r (Some x) sb) =
      ((if s then ''ap_fixed<'' else ''ap_ufixed<'') @ p) @ x @ (q @ ''>'')"
    by simp
  then show ?thesis by (metis str_in_appendI)
qed

lemma precision_string_modify_eq:
  "precision_string_modify self pstr =
     replace_gt pstr
       ((case rounding_mode self of None \<Rightarrow> [] | Some r \<Rightarrow> '','' @ r) @
        (case saturation_mode self of None \<Rightarrow> [] | Some s \<Rightarrow> '','' @ s) @
        (case saturation_bits self of None \<Rightarrow> [] | Some n \<Rightarrow> '','' @ str_int n) @ ''>'')"
  by (simp add: precision_string_modify_def split: option.splits)

lemma str_in_replace_gt:
  assumes "CHR ''>'' \<in> set pstr"
  shows "str_in x (replace_gt pstr (pre @ x @ rest))"
proof -
  from replace_gt_present [OF assms, of "pre @ x @ rest"] obtain p q
    where "replace_gt pstr (pre @ x @ rest) = p @ (pre @ x @ rest) @ q" by blast
  then have "replace_gt pstr (pre @ x @ rest) = (p @ pre) @ x @ (rest @ q)" by simp
  then show ?thesis by (metis str_in_appendI)
qed

lemma str_in_modify_rounding:
  assumes "CHR ''>'' \<in> set pstr" and "rounding_mode self = Some r"
  shows "str_in r (precision_string_modify self pstr)"
  unfolding precision_string_modify_eq
  using str_in_replace_gt [OF assms(1), of r "'',''"] assms(2) by simp

lemma str_in_modify_saturation:
  assumes "CHR ''>'' \<in> set pstr" and "saturation_mode self = Some x"
  shows "str_in x (precision_string_modify self pstr)"
  unfolding precision_string_modify_eq
  using str_in_replace_gt [OF assms(1), of x
      "(case rounding_mode self of None \<Rightarrow> [] | Some r \<Rightarrow> '','' @ r) @ '',''"] assms(2)
  by simp

lemma transform_fixed:
  "precision node = FixedPrecisionType w i s r sm sb \<Longrightarrow>
   \<exists>node'. OutputRoundingSaturationMode_transform self node = Inr (node', False) \<and>
     precision node' = FixedPrecisionType w i s (rounding_mode self) (saturation_mode self)
        (saturation_bits self) \<and>
     class_name node' = class_name node \<and> name node' = name node"
  by (simp add: OutputRoundingSaturationMode_transform_def Let_def)

lemma transform_string:
  "precision node = StrPrecision pstr \<Longrightarrow>
   \<exists>node'. OutputRoundingSaturationMode_transform self node = Inr (node', False) \<and>
     precision node' = StrPrecision (precision_string_modify self pstr) \<and>
     class_name node' = class_name node \<and> name node' = name node"
  by (simp add: OutputRoundingSaturationMode_transform_def Let_def)

lemma match_unfold:
  "OutputRoundingSaturationMode_match self node =
     ((class_name node \<in> set (layers self) \<or> name node \<in> set (layers self)) \<and>
      ((\<exists>r. rounding_mode self = Some r \<and> \<not> str_in r (precision_str (precision node))) \<or>
       (\<exists>s. saturation_mode self = Some s \<and> \<not> str_in s (precision_str (precision node)))))"
  by (auto simp: OutputRoundingSaturationMode_match_def Let_def split: option.splits)

text \<open>
  Claim C7. \<^verbatim>\<open>OutputRoundingSaturationMode.match\<close> is true exactly when the node's
  class name or the node's name is in the configured list of layers and at least one
  configured mode is missing from the text of the output precision: the rounding mode is
  set and does not occur in it, or the saturation mode is set and does not occur in it.
  With an empty list of layers no node matches. (\<open>str_in\<close> is occurrence as a contiguous
  piece, see \<open>str_in_iff\<close>.)
\<close>

theorem OutputRoundingSaturationMode_match_iff:
  "(OutputRoundingSaturationMode_match self node \<longleftrightarrow>
     (class_name node \<in> set (layers self) \<or> name node \<in> set (layers self)) \<and>
     ((\<exists>r. rounding_mode self = Some r \<and> \<not> str_in r (precision_str (precision node))) \<or>
      (\<exists>s. saturation_mode self = Some s \<and> \<not> str_in s (precision_str (precision node))))) \<and>
   (layers self = [] \<longrightarrow> \<not> OutputRoundingSaturationMode_match self node)"
  by (auto simp: OutputRoundingSaturationMode_match_def Let_def split: option.splits)

theorem OutputRoundingSaturationMode_match_iff_witness:
  "OutputRoundingSaturationMode_match round_conv dense_node \<and>
   layers (round_conv\<lparr>layers := []\<rparr>) = [] \<and>
   \<not> OutputRoundingSaturationMode_match (round_conv\<lparr>layers := []\<rparr>) dense_node"
  using OutputRoundingSaturationMode_match_iff [of round_conv dense_node]
    OutputRoundingSaturationMode_match_iff [of "round_conv\<lparr>layers := []\<rparr>" dense_node]
  by (simp add: round_conv_def dense_node_def mode_fields_def str_int_def str_nat.simps)

text \<open>
  Claim C3. On a node whose output type is a structured integer precision,
  \<^verbatim>\<open>transform\<close> does not replace the type: the integer branch binds
  \<^verbatim>\<open>newprecision\<close>, the assignment that follows reads \<^verbatim>\<open>newtype\<close>, and the call
  ends in \<^verbatim>\<open>UnboundLocalError\<close>, whatever the configuration and the rest of the node.
\<close>

theorem transform_integer_unbound:
  "OutputRoundingSaturationMode_transform self (node\<lparr>precision := IntegerPrecisionType w s r sm sb\<rparr>)
     = Inl UnboundLocalError"
  by (simp add: OutputRoundingSaturationMode_transform_def Let_def)

text \<open>
  Claim C8, as amended. On a node whose output type is neither a structured integer nor
  a structured fixed-point type: if the type is not a string, \<^verbatim>\<open>transform\<close> raises
  (\<^verbatim>\<open>AttributeError\<close>); if it is a string without the character \<^verbatim>\<open>>\<close> (so not
  a bracketed encoding), \<^verbatim>\<open>transform\<close> raises nothing: it returns \<^verbatim>\<open>False\<close>, the
  output type is the string it was, a non-None \<^verbatim>\<open>accum_t\<close> attribute is overwritten
  with that string type, and a node without \<^verbatim>\<open>accum_t\<close> is left exactly as it was.
\<close>

theorem transform_unbracketed_string:
  "(precision node = OtherPrecision t \<longrightarrow>
      OutputRoundingSaturationMode_transform self node = Inl AttributeError) \<and>
   (precision node = StrPrecision pstr \<and> CHR ''>'' \<notin> set pstr \<longrightarrow>
      OutputRoundingSaturationMode_transform self node =
        Inr (if get_attr node ''accum_t'' = AttrNone then node
             else set_attr node ''accum_t'' (AttrPrecision (StrPrecision pstr)), False))"
proof (intro conjI impI)
  assume "precision node = OtherPrecision t"
  then show "OutputRoundingSaturationMode_transform self node = Inl AttributeError"
    by (simp add: OutputRoundingSaturationMode_transform_def)
next
  assume a: "precision node = StrPrecision pstr \<and> CHR ''>'' \<notin> set pstr"
  then have m: "precision_string_modify self pstr = pstr"
    by (simp add: precision_string_modify_def replace_gt_absent)
  from a have n: "node\<lparr>precision := StrPrecision pstr\<rparr> = node" by simp
  from a show "OutputRoundingSaturationMode_transform self node =
        Inr (if get_attr node ''accum_t'' = AttrNone then node
             else set_attr node ''accum_t'' (AttrPrecision (StrPrecision pstr)), False)"
    by (simp add: OutputRoundingSaturationMode_transform_def Let_def m n)
qed

theorem transform_unbracketed_string_witness:
  "precision (dense_node\<lparr>precision := OtherPrecision ''None''\<rparr>) = OtherPrecision ''None'' \<and>
   OutputRoundingSaturationMode_transform round_conv
     (dense_node\<lparr>precision := OtherPrecision ''None''\<rparr>) = Inl AttributeError \<and>
   precision (dense_node\<lparr>precision := StrPrecision ''half'',
                attributes := [(''accum_t'', AttrPrecision (StrPrecision ''double''))]\<rparr>)
     = StrPrecision ''half'' \<and>
   CHR ''>'' \<notin> set ''half'' \<and>
   OutputRoundingSaturationMode_transform round_conv
     (dense_node\<lparr>precision := StrPrecision ''half'',
                attributes := [(''accum_t'', AttrPrecision (StrPrecision ''double''))]\<rparr>)
     = Inr (dense_node\<lparr>precision := StrPrecision ''half'',
                attributes := [(''accum_t'', AttrPrecision (StrPrecision ''half''))]\<rparr>, False) \<and>
   OutputRoundingSaturationMode_transform round_conv
     (dense_node\<lparr>precision := StrPrecision ''half''\<rparr>)
     = Inr (dense_node\<lparr>precision := StrPrecision ''half''\<rparr>, False)"
  using transform_unbracketed_string
      [of "dense_node\<lparr>precision := OtherPrecision ''None''\<rparr>" "''None''" round_conv "''half''"]
    transform_unbracketed_string
      [of "dense_node\<lparr>precision := StrPrecision ''half'',
                attributes := [(''accum_t'', AttrPrecision (StrPrecision ''double''))]\<rparr>"
          "''None''" round_conv "''half''"]
    transform_unbracketed_string
      [of "dense_node\<lparr>precision := StrPrecision ''half''\<rparr>" "''None''" round_conv "''half''"]
  by (simp add: get_attr_def set_attr_def dense_node_def)

text \<open>
  The claim as stated fails: the type \<^verbatim>\<open>'float'\<close> is neither structured nor
  bracketed, and \<^verbatim>\<open>transform\<close> returns \<^verbatim>\<open>False\<close> with the node unchanged.
\<close>

theorem transform_unbracketed_string_counterexample:
  "OutputRoundingSaturationMode_transform round_conv (dense_node\<lparr>precision := StrPrecision ''float''\<rparr>)
     = Inr (dense_node\<lparr>precision := StrPrecision ''float''\<rparr>, False)"
  by (simp add: OutputRoundingSaturationMode_transform_def Let_def replace_gt_def
      precision_string_modify_def get_attr_def dense_node_def round_conv_def)

text \<open>
  Claim C4, as amended. For a node whose output type is a structured fixed-point
  precision or a string that contains \<^verbatim>\<open>>\<close>, and any configuration: if
  \<^verbatim>\<open>match\<close> is true, \<^verbatim>\<open>transform\<close> completes (returning \<^verbatim>\<open>False\<close>) and
  \<^verbatim>\<open>match\<close> under the same configuration is false on the node it leaves.
\<close>

theorem match_false_after_transform:
  assumes "OutputRoundingSaturationMode_match self node"
    and "(\<exists>w i s r sm sb. precision node = FixedPrecisionType w i s r sm sb) \<or>
         (\<exists>pstr. precision node = StrPrecision pstr \<and> CHR ''>'' \<in> set pstr)"
  shows "\<exists>node'. OutputRoundingSaturationMode_transform self node = Inr (node', False) \<and>
           \<not> OutputRoundingSaturationMode_match self node'"
  using assms(2)
proof (elim disjE exE conjE)
  fix w i s r sm sb
  assume "precision node = FixedPrecisionType w i s r sm sb"
  from transform_fixed [OF this, of self] obtain node' where
    t: "OutputRoundingSaturationMode_transform self node = Inr (node', False)" and
    p: "precision node' = FixedPrecisionType w i s (rounding_mode self) (saturation_mode self)
        (saturation_bits self)" by blast
  have "\<not> OutputRoundingSaturationMode_match self node'"
    unfolding match_unfold p
    using str_in_precision_str_rounding str_in_precision_str_saturation by auto
  with t show ?thesis by blast
next
  fix pstr
  assume s: "precision node = StrPrecision pstr" and gt: "CHR ''>'' \<in> set pstr"
  from transform_string [OF s, of self] obtain node' where
    t: "OutputRoundingSaturationMode_transform self node = Inr (node', False)" and
    p: "precision node' = StrPrecision (precision_string_modify self pstr)" by blast
  have "\<not> OutputRoundingSaturationMode_match self node'"
    unfolding match_unfold p
    using str_in_modify_rounding [OF gt] str_in_modify_saturation [OF gt] by auto
  with t show ?thesis by blast
qed

theorem match_false_after_transform_witness:
  "OutputRoundingSaturationMode_match round_conv dense_node \<and>
   precision dense_node = FixedPrecisionType 16 6 True None None None \<and>
   (\<exists>node'. OutputRoundingSaturationMode_transform round_conv dense_node = Inr (node', False) \<and>
      \<not> OutputRoundingSaturationMode_match round_conv node')"
proof -
  have m: "OutputRoundingSaturationMode_match round_conv dense_node"
    by (simp add: OutputRoundingSaturationMode_match_def round_conv_def dense_node_def
        mode_fields_def str_int_def str_nat.simps)
  have p: "precision dense_node = FixedPrecisionType 16 6 True None None None"
    by (simp add: dense_node_def)
  from p have "(\<exists>w i s r sm sb. precision dense_node = FixedPrecisionType w i s r sm sb) \<or>
      (\<exists>pstr. precision dense_node = StrPrecision pstr \<and> CHR ''>'' \<in> set pstr)"
    by blast
  from match_false_after_transform [OF m this] m p show ?thesis by blast
qed

text \<open>
  The claim as stated fails: with convergent rounding configured for dense layers, a dense
  node of type \<^verbatim>\<open>'float'\<close> matches, \<^verbatim>\<open>transform\<close> leaves it as it was, and it
  matches again.
\<close>

theorem match_false_after_transform_counterexample:
  "OutputRoundingSaturationMode_match round_conv (dense_node\<lparr>precision := StrPrecision ''float''\<rparr>) \<and>
   OutputRoundingSaturationMode_transform round_conv (dense_node\<lparr>precision := StrPrecision ''float''\<rparr>)
     = Inr (dense_node\<lparr>precision := StrPrecision ''float''\<rparr>, False) \<and>
   OutputRoundingSaturationMode_match round_conv (dense_node\<lparr>precision := StrPrecision ''float''\<rparr>)"
  by (simp add: OutputRoundingSaturationMode_transform_def Let_def replace_gt_def
      OutputRoundingSaturationMode_match_def
      precision_string_modify_def get_attr_def dense_node_def round_conv_def)

section \<open>Properties of QKerasFactorizeAlpha\<close>

lemma factorize_match_unfold:
 "QKerasFactorizeAlpha_match node \<longleftrightarrow>
    class_name node \<in> {''Dense'', ''Conv1D'', ''Conv2D''} \<and>
    ((\<exists>q a. get_attr node ''weight_quantizer'' = AttrQuantizer q \<and> alpha q = Some a \<and> a \<noteq> PyNum 1) \<or>
     (\<exists>q a. get_attr node ''bias_quantizer'' = AttrQuantizer q \<and> alpha q = Some a \<and> a \<noteq> PyNum 1))"
proof -
  have w: "\<And>v. (v \<noteq> AttrNone \<and> hasattr_alpha v \<and> alpha_ne_1 v) \<longleftrightarrow>
      (\<exists>q a. v = AttrQuantizer q \<and> alpha q = Some a \<and> a \<noteq> PyNum 1)"
    subgoal for v by (cases v) auto
    done
  show ?thesis
    unfolding QKerasFactorizeAlpha_match_def Let_def
    using w [of "get_attr node ''weight_quantizer''"] w [of "get_attr node ''bias_quantizer''"]
    by auto
qed


lemma transform_Inr:
  assumes t: "QKerasFactorizeAlpha_transform model node = Inr (model', node', b)"
  shows "\<exists>w hq qfn wdata qweights scale new_weights w' node0 node1 alpha_name alpha_layer.
    map_of (weights node) ''weight'' = Some w \<and> quantizer w = Some hq \<and>
    quantizer_fn hq = Some qfn \<and> data_unquantized w = Some wdata \<and>
    quantize qfn (get_config qfn) wdata = (qweights, scale) \<and>
    np_mul (map (\<lambda>s. 1 / s) scale) qweights = Inr new_weights \<and>
    node0 = node\<lparr>weights := AList.update ''weight'' w' (weights node)\<rparr> \<and>
    (if \<not> is_None (get_attr node0 ''weight_quantizer'')
     then set_alpha_1 node0 ''weight_quantizer'' else Inr node0) = Inr node1 \<and>
    (if \<not> is_None (get_attr node0 ''bias_quantizer'') then set_alpha_1 node1 ''bias_quantizer''
     else Inr node1) = Inr node' \<and>
    attr_plus_str (get_attr node' ''name'') ''_alpha'' = Inr alpha_name \<and>
    make_node (update_node model node') ''ApplyAlpha'' (name node' @ ''_alpha'')
      (alpha_attrs node' alpha_name) (outputs node') = Inr alpha_layer \<and>
    insert_node (update_node model node') (add_weights alpha_layer scale (np_zeros_like scale))
      = Inr model' \<and>
    b = True"
proof -
  note d = QKerasFactorizeAlpha_transform_def
  obtain w where w: "map_of (weights node) ''weight'' = Some w"
    using t by (cases "map_of (weights node) ''weight''") (simp_all add: d)
  obtain hq where hq: "quantizer w = Some hq"
    using t w by (cases "quantizer w") (simp_all add: d)
  obtain qfn where qfn: "quantizer_fn hq = Some qfn"
    using t w hq by (cases "quantizer_fn hq") (simp_all add: d)
  obtain wdata where wdata: "data_unquantized w = Some wdata"
    using t w hq qfn by (cases "data_unquantized w") (simp_all add: d)
  obtain qweights scale where q: "quantize qfn (get_config qfn) wdata = (qweights, scale)"
    by (cases "quantize qfn (get_config qfn) wdata") blast
  obtain new_weights where nw: "np_mul (map (\<lambda>s. 1 / s) scale) qweights = Inr new_weights"
    using t w hq qfn wdata q
    by (cases "np_mul (map (\<lambda>s. 1 / s) scale) qweights") (simp_all add: d)
  define hq' where "hq' = hq\<lparr>quantizer_fn := Some (from_config qfn
      (AList.update ''alpha'' (PyNum 1) (get_config qfn)))\<rparr>"
  define w' where "w' = w\<lparr>quantizer := Some hq'\<rparr>\<lparr>data := call hq' (quantizer_fn hq') new_weights\<rparr>"
  define node0 where "node0 = node\<lparr>weights := AList.update ''weight'' w' (weights node)\<rparr>"
  define r1 where "r1 = (if \<not> is_None (get_attr node0 ''weight_quantizer'')
     then set_alpha_1 node0 ''weight_quantizer'' else Inr node0)"
  have t1: "(case r1 of Inl e \<Rightarrow> Inl e | Inr node \<Rightarrow>
     (case (if \<not> is_None (get_attr node0 ''bias_quantizer'') then set_alpha_1 node ''bias_quantizer'' else Inr node) of
        Inl e \<Rightarrow> Inl e
      | Inr node \<Rightarrow>
     (case attr_plus_str (get_attr node ''name'') ''_alpha'' of
        Inl e \<Rightarrow> Inl e
      | Inr alpha_name \<Rightarrow>
     (case make_node (update_node model node) ''ApplyAlpha'' (name node @ ''_alpha'')
         (alpha_attrs node alpha_name) (outputs node) of
        Inl e \<Rightarrow> Inl e
      | Inr alpha_layer \<Rightarrow>
     (case insert_node (update_node model node) (add_weights alpha_layer scale (np_zeros_like scale)) of
        Inl e \<Rightarrow> Inl e
      | Inr model \<Rightarrow> Inr (model, node, True)))))) = Inr (model', node', b)"
    using t
    unfolding d w option.case hq qfn wdata Let_def q prod.case nw sum.case
      alpha_attrs_def r1_def node0_def w'_def hq'_def .
  obtain node1 where n1: "r1 = Inr node1"
    using t1 by (cases r1) simp_all
  define r2 where "r2 = (if \<not> is_None (get_attr node0 ''bias_quantizer'')
     then set_alpha_1 node1 ''bias_quantizer'' else Inr node1)"
  have t2: "(case r2 of
        Inl e \<Rightarrow> Inl e
      | Inr node \<Rightarrow>
     (case attr_plus_str (get_attr node ''name'') ''_alpha'' of
        Inl e \<Rightarrow> Inl e
      | Inr alpha_name \<Rightarrow>
     (case make_node (update_node model node) ''ApplyAlpha'' (name node @ ''_alpha'')
         (alpha_attrs node alpha_name) (outputs node) of
        Inl e \<Rightarrow> Inl e
      | Inr alpha_layer \<Rightarrow>
     (case insert_node (update_node model node) (add_weights alpha_layer scale (np_zeros_like scale)) of
        Inl e \<Rightarrow> Inl e
      | Inr model \<Rightarrow> Inr (model, node, True))))) = Inr (model', node', b)"
    using t1 unfolding n1 sum.case r2_def .
  obtain node2 where n2: "r2 = Inr node2"
    using t2 by (cases r2) simp_all
  obtain alpha_name where an: "attr_plus_str (get_attr node2 ''name'') ''_alpha'' = Inr alpha_name"
    using t2 n2 by (cases "attr_plus_str (get_attr node2 ''name'') ''_alpha''") simp_all
  obtain alpha_layer where al: "make_node (update_node model node2) ''ApplyAlpha'' (name node2 @ ''_alpha'')
         (alpha_attrs node2 alpha_name) (outputs node2) = Inr alpha_layer"
    using t2 n2 an
    by (cases "make_node (update_node model node2) ''ApplyAlpha'' (name node2 @ ''_alpha'')
         (alpha_attrs node2 alpha_name) (outputs node2)") simp_all
  obtain m2 where m2: "insert_node (update_node model node2)
      (add_weights alpha_layer scale (np_zeros_like scale)) = Inr m2"
    using t2 n2 an al
    by (cases "insert_node (update_node model node2)
      (add_weights alpha_layer scale (np_zeros_like scale))") simp_all
  have fin: "m2 = model'" "node2 = node'" "b = True"
    using t2 n2 an al m2 by simp_all
  show ?thesis
    using w hq qfn wdata q nw n1 n2 an al m2 fin node0_def
    unfolding r1_def r2_def by blast
qed

lemma get_attr_weights_update [simp]:
  "get_attr (node\<lparr>weights := ws\<rparr>) k = get_attr node k"
  by (simp add: get_attr_def)

lemma set_alpha_1_Inr:
  assumes "set_alpha_1 node k = Inr node1"
  shows "(\<exists>q. get_attr node1 k = AttrQuantizer q \<and> alpha q = Some (PyNum 1)) \<and>
         (\<forall>k'. k' \<noteq> k \<longrightarrow> get_attr node1 k' = get_attr node k') \<and>
         class_name node1 = class_name node \<and> name node1 = name node \<and>
         outputs node1 = outputs node \<and> inputs node1 = inputs node \<and>
         shape node1 = shape node \<and> weights node1 = weights node"
proof (cases "map_of (attributes node) k")
  case None
  with assms show ?thesis by (simp add: set_alpha_1_def)
next
  case (Some v)
  with assms obtain q where v: "v = AttrQuantizer q"
    by (cases v) (simp_all add: set_alpha_1_def)
  with Some assms have
    "node1 = node\<lparr>attributes := AList.update k (AttrQuantizer (q\<lparr>alpha := Some (PyNum 1)\<rparr>)) (attributes node)\<rparr>"
    by (simp add: set_alpha_1_def)
  then show ?thesis
    by (simp add: get_attr_def update_conv')
qed

lemma maybe_set_alpha_1:
  assumes "(if \<not> is_None (get_attr node0 k) then set_alpha_1 node1 k else Inr node1) = Inr node2"
    and "get_attr node1 k = get_attr node0 k"
  shows "(get_attr node0 k \<noteq> AttrNone \<longrightarrow>
            (\<exists>q. get_attr node2 k = AttrQuantizer q \<and> alpha q = Some (PyNum 1))) \<and>
         (get_attr node0 k = AttrNone \<longrightarrow> get_attr node2 k = AttrNone) \<and>
         (\<forall>k'. k' \<noteq> k \<longrightarrow> get_attr node2 k' = get_attr node1 k') \<and>
         class_name node2 = class_name node1 \<and> name node2 = name node1 \<and>
         outputs node2 = outputs node1 \<and> inputs node2 = inputs node1 \<and>
         shape node2 = shape node1 \<and> weights node2 = weights node1"
proof (cases "get_attr node0 k = AttrNone")
  case True
  with assms show ?thesis by simp
next
  case False
  with assms have "set_alpha_1 node1 k = Inr node2" by simp
  from set_alpha_1_Inr [OF this] False show ?thesis by simp
qed

lemma transform_node_state:
  assumes t: "QKerasFactorizeAlpha_transform model node = Inr (model', node', b)"
  shows "(get_attr node ''weight_quantizer'' \<noteq> AttrNone \<longrightarrow>
            (\<exists>q. get_attr node' ''weight_quantizer'' = AttrQuantizer q \<and> alpha q = Some (PyNum 1))) \<and>
         (get_attr node ''weight_quantizer'' = AttrNone \<longrightarrow> get_attr node' ''weight_quantizer'' = AttrNone) \<and>
         (get_attr node ''bias_quantizer'' \<noteq> AttrNone \<longrightarrow>
            (\<exists>q. get_attr node' ''bias_quantizer'' = AttrQuantizer q \<and> alpha q = Some (PyNum 1))) \<and>
         (get_attr node ''bias_quantizer'' = AttrNone \<longrightarrow> get_attr node' ''bias_quantizer'' = AttrNone) \<and>
         class_name node' = class_name node \<and> name node' = name node \<and>
         outputs node' = outputs node \<and> inputs node' = inputs node \<and> shape node' = shape node"
proof -
  from transform_Inr [OF t] obtain w' node0 node1 where
    n0: "node0 = node\<lparr>weights := AList.update ''weight'' w' (weights node)\<rparr>" and
    s1: "(if \<not> is_None (get_attr node0 ''weight_quantizer'')
          then set_alpha_1 node0 ''weight_quantizer'' else Inr node0) = Inr node1" and
    s2: "(if \<not> is_None (get_attr node0 ''bias_quantizer'') then set_alpha_1 node1 ''bias_quantizer''
          else Inr node1) = Inr node'"
    by blast
  have a1: "(get_attr node0 ''weight_quantizer'' \<noteq> AttrNone \<longrightarrow>
            (\<exists>q. get_attr node1 ''weight_quantizer'' = AttrQuantizer q \<and> alpha q = Some (PyNum 1))) \<and>
         (get_attr node0 ''weight_quantizer'' = AttrNone \<longrightarrow> get_attr node1 ''weight_quantizer'' = AttrNone) \<and>
         (\<forall>k'. k' \<noteq> ''weight_quantizer'' \<longrightarrow> get_attr node1 k' = get_attr node0 k') \<and>
         class_name node1 = class_name node0 \<and> name node1 = name node0 \<and>
         outputs node1 = outputs node0 \<and> inputs node1 = inputs node0 \<and>
         shape node1 = shape node0 \<and> weights node1 = weights node0"
    by (rule maybe_set_alpha_1 [OF s1]) simp
  then have b: "get_attr node1 ''bias_quantizer'' = get_attr node0 ''bias_quantizer''" by simp
  note a2 = maybe_set_alpha_1 [OF s2 b]
  have w2: "get_attr node' ''weight_quantizer'' = get_attr node1 ''weight_quantizer''"
    using a2 by simp
  have g0: "\<And>k. get_attr node0 k = get_attr node k" by (simp add: n0)
  have f0: "class_name node0 = class_name node" "name node0 = name node" "outputs node0 = outputs node"
    "inputs node0 = inputs node" "shape node0 = shape node"
    by (simp_all add: n0)
  show ?thesis
    using a1 a2 w2 b unfolding g0 f0 by simp
qed


lemmas ex_defs = auto_qkeras_def auto_quantizer_def qdense_node_def relu_node_def qmodel_def
  bias_only_node_def

lemmas graph_defs = update_node_def producer_def get_input_node_def ApplyAlpha_initialize_def
  add_weights_variable_def add_weights_def make_node_def rewire_def insert_node_def
  remove_node_def np_mul_def np_add_def broadcast_def np_zeros_like_def get_attr_def
  set_attr_def set_alpha_1_def attr_plus_str_def from_config_def

lemma qdense_matches: "QKerasFactorizeAlpha_match qdense_node"
  by (simp add: QKerasFactorizeAlpha_match_def ex_defs get_attr_def)

lemma qdense_transforms:
  "\<exists>model' node'. QKerasFactorizeAlpha_transform qmodel qdense_node = Inr (model', node', True)"
  by (simp add: QKerasFactorizeAlpha_transform_def ex_defs graph_defs Let_def)

lemma find_update:
  assumes "find P xs = Some n" and "P n'"
  shows "find P (map (\<lambda>x. if name x = name n then n' else x) xs) = Some n'"
  using assms by (induction xs) (auto split: if_splits)

lemma producer_update_node:
  assumes "producer model t = Some node" and "take 1 (outputs node') = [t]"
    and "name node' = name node"
  shows "producer (update_node model node') t = Some node'"
  using find_update [of "\<lambda>n. take 1 (outputs n) = [t]" "graph model" node node'] assms
  by (simp add: producer_def update_node_def)

lemma producer_Some:
  "producer model t = Some n \<Longrightarrow> n \<in> set (graph model) \<and> take 1 (outputs n) = [t]"
  by (auto simp: producer_def find_Some_iff)

lemma insert_after_member:
  "\<exists>n \<in> set g. take 1 (outputs n) = [t] \<Longrightarrow> x \<in> set (insert_after t x g)"
  by (induction g) auto

lemma outputs_rewire [simp]: "outputs (rewire a b n) = outputs n"
  by (simp add: rewire_def)

text \<open>
  Claim C6. \<^verbatim>\<open>QKerasFactorizeAlpha.match\<close> is true exactly when the node's class is
  \<^verbatim>\<open>Dense\<close>, \<^verbatim>\<open>Conv1D\<close> or \<^verbatim>\<open>Conv2D\<close> and the weight quantizer attribute
  is present with an \<^verbatim>\<open>alpha\<close> that exists and differs from 1, or the bias quantizer
  attribute is. A quantizer without \<^verbatim>\<open>alpha\<close> gives no match from its side.
\<close>

theorem QKerasFactorizeAlpha_match_iff:
 "QKerasFactorizeAlpha_match node \<longleftrightarrow>
    class_name node \<in> {''Dense'', ''Conv1D'', ''Conv2D''} \<and>
    ((\<exists>q a. get_attr node ''weight_quantizer'' = AttrQuantizer q \<and> alpha q = Some a \<and> a \<noteq> PyNum 1) \<or>
     (\<exists>q a. get_attr node ''bias_quantizer'' = AttrQuantizer q \<and> alpha q = Some a \<and> a \<noteq> PyNum 1))"
  by (rule factorize_match_unfold)

theorem QKerasFactorizeAlpha_match_iff_witness:
  "QKerasFactorizeAlpha_match qdense_node \<and>
   \<not> QKerasFactorizeAlpha_match
        (qdense_node\<lparr>attributes :=
           [(''weight_quantizer'', AttrQuantizer (auto_quantizer\<lparr>alpha := None\<rparr>))]\<rparr>) \<and>
   \<not> QKerasFactorizeAlpha_match (qdense_node\<lparr>class_name := ''Activation''\<rparr>)"
  using QKerasFactorizeAlpha_match_iff [of qdense_node]
    QKerasFactorizeAlpha_match_iff [of "qdense_node\<lparr>attributes :=
           [(''weight_quantizer'', AttrQuantizer (auto_quantizer\<lparr>alpha := None\<rparr>))]\<rparr>"]
    QKerasFactorizeAlpha_match_iff [of "qdense_node\<lparr>class_name := ''Activation''\<rparr>"]
  by (simp add: ex_defs get_attr_def)

text \<open>
  Claim C2. If \<^verbatim>\<open>match\<close> is true on a node and \<^verbatim>\<open>transform\<close> completes, then in
  the node as \<^verbatim>\<open>transform\<close> leaves it the weight quantizer attribute, when present,
  has \<^verbatim>\<open>alpha = 1\<close>, the bias quantizer attribute, when present, has
  \<^verbatim>\<open>alpha = 1\<close>, and \<^verbatim>\<open>match\<close> is false.
\<close>

theorem alpha_eliminated:
  assumes "QKerasFactorizeAlpha_match node"
    and "QKerasFactorizeAlpha_transform model node = Inr (model', node', b)"
  shows "(get_attr node ''weight_quantizer'' \<noteq> AttrNone \<longrightarrow>
            (\<exists>q. get_attr node' ''weight_quantizer'' = AttrQuantizer q \<and> alpha q = Some (PyNum 1))) \<and>
         (get_attr node ''bias_quantizer'' \<noteq> AttrNone \<longrightarrow>
            (\<exists>q. get_attr node' ''bias_quantizer'' = AttrQuantizer q \<and> alpha q = Some (PyNum 1))) \<and>
         \<not> QKerasFactorizeAlpha_match node'"
proof -
  note s = transform_node_state [OF assms(2)]
  have nw: "\<not> (\<exists>q a. get_attr node' ''weight_quantizer'' = AttrQuantizer q \<and> alpha q = Some a \<and>
      a \<noteq> PyNum 1)"
  proof (cases "get_attr node ''weight_quantizer'' = AttrNone")
    case True
    with s have "get_attr node' ''weight_quantizer'' = AttrNone" by blast
    then show ?thesis by simp
  next
    case False
    with s obtain q where "get_attr node' ''weight_quantizer'' = AttrQuantizer q"
      "alpha q = Some (PyNum 1)" by blast
    then show ?thesis by simp
  qed
  have nb: "\<not> (\<exists>q a. get_attr node' ''bias_quantizer'' = AttrQuantizer q \<and> alpha q = Some a \<and>
      a \<noteq> PyNum 1)"
  proof (cases "get_attr node ''bias_quantizer'' = AttrNone")
    case True
    with s have "get_attr node' ''bias_quantizer'' = AttrNone" by blast
    then show ?thesis by simp
  next
    case False
    with s obtain q where "get_attr node' ''bias_quantizer'' = AttrQuantizer q"
      "alpha q = Some (PyNum 1)" by blast
    then show ?thesis by simp
  qed
  from nw nb have "\<not> QKerasFactorizeAlpha_match node'"
    unfolding factorize_match_unfold by blast
  with s show ?thesis by blast
qed

theorem alpha_eliminated_witness:
  "QKerasFactorizeAlpha_match qdense_node \<and>
   (\<exists>model' node'.
      QKerasFactorizeAlpha_transform qmodel qdense_node = Inr (model', node', True) \<and>
      (\<exists>q. get_attr node' ''weight_quantizer'' = AttrQuantizer q \<and> alpha q = Some (PyNum 1)) \<and>
      \<not> QKerasFactorizeAlpha_match node')"
proof -
  from qdense_transforms obtain model' node' where
    t: "QKerasFactorizeAlpha_transform qmodel qdense_node = Inr (model', node', True)" by blast
  have "get_attr qdense_node ''weight_quantizer'' \<noteq> AttrNone"
    by (simp add: qdense_node_def get_attr_def)
  with alpha_eliminated [OF qdense_matches t] qdense_matches t show ?thesis by blast
qed

text \<open>
  Claim C5. When \<^verbatim>\<open>transform\<close> completes on a node that is the producer of its first
  output in the graph, it returns \<^verbatim>\<open>True\<close> and the graph it leaves contains a node of
  kind \<^verbatim>\<open>ApplyAlpha\<close>, named as the original node with the suffix \<^verbatim>\<open>_alpha\<close>,
  whose inputs are the original node's outputs, whose output shape is the original node's
  output shape, whose \<^verbatim>\<open>scale\<close> weight is the scale that the weight quantizer computes
  on the pre-quantization weights, and whose \<^verbatim>\<open>bias\<close> weight is zeros of the same
  shape.
\<close>

theorem alpha_layer_inserted:
  assumes t: "QKerasFactorizeAlpha_transform model node = Inr (model', node', b)"
    and w: "map_of (weights node) ''weight'' = Some w" "quantizer w = Some hq"
      "quantizer_fn hq = Some qfn" "data_unquantized w = Some wdata"
    and out: "outputs node = out # outs" "producer model out = Some node"
  shows "b = True \<and>
    (\<exists>alpha_layer \<in> set (graph model').
       class_name alpha_layer = ''ApplyAlpha'' \<and>
       name alpha_layer = name node @ ''_alpha'' \<and>
       inputs alpha_layer = outputs node \<and>
       shape alpha_layer = shape node \<and>
       map_of (weights alpha_layer) ''scale'' =
         Some \<lparr>data = snd (quantize qfn (get_config qfn) wdata), data_unquantized = None,
               quantizer = None\<rparr> \<and>
       map_of (weights alpha_layer) ''bias'' =
         Some \<lparr>data = replicate (length (snd (quantize qfn (get_config qfn) wdata))) 0,
               data_unquantized = None, quantizer = None\<rparr>)"
proof -
  from transform_Inr [OF t] w obtain qweights scale alpha_name al where
    q: "quantize qfn (get_config qfn) wdata = (qweights, scale)" and
    mk: "make_node (update_node model node') ''ApplyAlpha'' (name node' @ ''_alpha'')
           (alpha_attrs node' alpha_name) (outputs node') = Inr al" and
    ins: "insert_node (update_node model node')
           (add_weights al scale (np_zeros_like scale)) = Inr model'" and
    b: "b = True"
    by auto
  note st = transform_node_state [OF t]
  have o': "outputs node' = out # outs" using st out(1) by simp
  have p': "producer (update_node model node') out = Some node'"
    using producer_update_node [OF out(2), of node'] o' st by simp
  have al: "al = \<lparr>class_name = ''ApplyAlpha'', name = name node' @ ''_alpha'',
      inputs = outputs node', outputs = [name node' @ ''_alpha''],
      attributes = alpha_attrs node' alpha_name, weights = [],
      precision = default_precision (update_node model node'), shape = shape node',
      dim_names = dim_names node'\<rparr>"
    using mk p' o' by (simp add: make_node_def ApplyAlpha_initialize_def)
  define al' where "al' = add_weights al scale (np_zeros_like scale)"
  have m': "model' = (update_node model node')\<lparr>graph :=
      insert_after out al' (map (rewire out (name node' @ ''_alpha''))
        (graph (update_node model node')))\<rparr>"
    using ins p' o' unfolding al'_def [symmetric]
    by (simp add: insert_node_def al'_def al add_weights_def add_weights_variable_def)
  from producer_Some [OF p'] have
    "\<exists>n \<in> set (map (rewire out (name node' @ ''_alpha'')) (graph (update_node model node'))).
       take 1 (outputs n) = [out]"
    by force
  from insert_after_member [OF this, of al'] have mem: "al' \<in> set (graph model')"
    by (simp add: m')
  have props: "class_name al' = ''ApplyAlpha'' \<and> name al' = name node @ ''_alpha'' \<and>
       inputs al' = outputs node \<and> shape al' = shape node \<and>
       map_of (weights al') ''scale'' =
         Some \<lparr>data = scale, data_unquantized = None, quantizer = None\<rparr> \<and>
       map_of (weights al') ''bias'' =
         Some \<lparr>data = replicate (length scale) 0, data_unquantized = None, quantizer = None\<rparr>"
    using st by (simp add: al'_def al add_weights_def add_weights_variable_def np_zeros_like_def)
  from q have "snd (quantize qfn (get_config qfn) wdata) = scale" by simp
  with mem props b show ?thesis by blast
qed

theorem alpha_layer_inserted_witness:
  "\<exists>model' node'. QKerasFactorizeAlpha_transform qmodel qdense_node = Inr (model', node', True) \<and>
    (\<exists>alpha_layer \<in> set (graph model').
       class_name alpha_layer = ''ApplyAlpha'' \<and>
       name alpha_layer = ''fc1_alpha'' \<and>
       inputs alpha_layer = [''fc1''] \<and>
       shape alpha_layer = [2] \<and>
       map_of (weights alpha_layer) ''scale'' =
         Some \<lparr>data = [2], data_unquantized = None, quantizer = None\<rparr> \<and>
       map_of (weights alpha_layer) ''bias'' =
         Some \<lparr>data = [0], data_unquantized = None, quantizer = None\<rparr>)"
proof -
  from qdense_transforms obtain model' node' where
    t: "QKerasFactorizeAlpha_transform qmodel qdense_node = Inr (model', node', True)" by blast
  have w: "map_of (weights qdense_node) ''weight'' =
      Some \<lparr>data = [2, 4], data_unquantized = Some [1, 2], quantizer = Some auto_quantizer\<rparr>"
    by (simp add: qdense_node_def)
  have p: "producer qmodel ''fc1'' = Some qdense_node"
    by (simp add: producer_def qmodel_def qdense_node_def)
  have o: "outputs qdense_node = ''fc1'' # []" by (simp add: qdense_node_def)
  have "\<exists>alpha_layer \<in> set (graph model').
       class_name alpha_layer = ''ApplyAlpha'' \<and>
       name alpha_layer = name qdense_node @ ''_alpha'' \<and>
       inputs alpha_layer = outputs qdense_node \<and>
       shape alpha_layer = shape qdense_node \<and>
       map_of (weights alpha_layer) ''scale'' =
         Some \<lparr>data = snd (quantize auto_qkeras (get_config auto_qkeras) [1, 2]),
               data_unquantized = None, quantizer = None\<rparr> \<and>
       map_of (weights alpha_layer) ''bias'' =
         Some \<lparr>data = replicate (length (snd (quantize auto_qkeras (get_config auto_qkeras) [1, 2]))) 0,
               data_unquantized = None, quantizer = None\<rparr>"
    using alpha_layer_inserted [OF t w _ _ _ o p, of auto_quantizer auto_qkeras "[1, 2]"]
    by (simp add: auto_quantizer_def)
  moreover have "snd (quantize auto_qkeras (get_config auto_qkeras) [1, 2]) = [2]"
    by (simp add: auto_qkeras_def)
  moreover have "name qdense_node @ ''_alpha'' = ''fc1_alpha''" "outputs qdense_node = [''fc1'']"
    "shape qdense_node = [2]"
    by (simp_all add: qdense_node_def)
  ultimately have "\<exists>alpha_layer \<in> set (graph model').
       class_name alpha_layer = ''ApplyAlpha'' \<and>
       name alpha_layer = ''fc1_alpha'' \<and>
       inputs alpha_layer = [''fc1''] \<and>
       shape alpha_layer = [2] \<and>
       map_of (weights alpha_layer) ''scale'' =
         Some \<lparr>data = [2], data_unquantized = None, quantizer = None\<rparr> \<and>
       map_of (weights alpha_layer) ''bias'' =
         Some \<lparr>data = [0], data_unquantized = None, quantizer = None\<rparr>"
    by simp
  with t show ?thesis by blast
qed

text \<open>
  Claim C10. \<^verbatim>\<open>transform\<close> reads the quantizer of the weight entry before anything
  else: whenever it completes, the weight entry exists and has a quantizer with a
  \<^verbatim>\<open>quantizer_fn\<close> and pre-quantization data; and on a node whose weight entry has no
  quantizer it raises \<^verbatim>\<open>AttributeError\<close>, also when \<^verbatim>\<open>match\<close> was true through
  the bias quantizer alone (the witness is such a node).
\<close>

theorem transform_needs_weight_quantizer:
  "(\<forall>r. QKerasFactorizeAlpha_transform model node = Inr r \<longrightarrow>
      (\<exists>w hq qfn wdata. map_of (weights node) ''weight'' = Some w \<and> quantizer w = Some hq \<and>
         quantizer_fn hq = Some qfn \<and> data_unquantized w = Some wdata)) \<and>
   (\<forall>w. map_of (weights node) ''weight'' = Some w \<and> quantizer w = None \<longrightarrow>
      QKerasFactorizeAlpha_transform model node = Inl AttributeError)"
proof (intro conjI allI impI)
  fix r
  assume "QKerasFactorizeAlpha_transform model node = Inr r"
  then obtain model' node' b where
    "QKerasFactorizeAlpha_transform model node = Inr (model', node', b)"
    by (cases r) auto
  from transform_Inr [OF this]
  show "\<exists>w hq qfn wdata. map_of (weights node) ''weight'' = Some w \<and> quantizer w = Some hq \<and>
         quantizer_fn hq = Some qfn \<and> data_unquantized w = Some wdata"
    by blast
next
  fix w
  assume "map_of (weights node) ''weight'' = Some w \<and> quantizer w = None"
  then show "QKerasFactorizeAlpha_transform model node = Inl AttributeError"
    by (simp add: QKerasFactorizeAlpha_transform_def)
qed


theorem transform_needs_weight_quantizer_witness:
  "QKerasFactorizeAlpha_match bias_only_node \<and>
   get_attr bias_only_node ''weight_quantizer'' = AttrNone \<and>
   map_of (weights bias_only_node) ''weight'' =
     Some \<lparr>data = [1, 2], data_unquantized = Some [1, 2], quantizer = None\<rparr> \<and>
   QKerasFactorizeAlpha_transform qmodel bias_only_node = Inl AttributeError"
  using transform_needs_weight_quantizer [of qmodel bias_only_node]
  by (simp add: QKerasFactorizeAlpha_match_def ex_defs get_attr_def)

section \<open>Properties of broadcasting\<close>

lemma broadcast_Inr:
  assumes "broadcast f xs ys = Inr zs"
  shows "compat (length xs) (length ys) \<and> length zs = blen (length xs) (length ys) \<and>
         (\<forall>k < length zs. zs ! k = f (bget xs k) (bget ys k))"
proof (cases "length xs = length ys")
  case True
  with assms have "zs = map2 f xs ys" by (simp add: broadcast_def)
  with True show ?thesis by (auto simp: compat_def blen_def bget_def)
next
  case False
  show ?thesis
  proof (cases "length xs = 1")
    case True
    then obtain x where x: "xs = [x]" by (cases xs) auto
    with False assms have "zs = map (f x) ys" by (simp add: broadcast_def)
    with x False show ?thesis by (auto simp: compat_def blen_def bget_def)
  next
    case nx: False
    show ?thesis
    proof (cases "length ys = 1")
      case True
      then obtain y where y: "ys = [y]" by (cases ys) auto
      with False nx assms have "zs = map (\<lambda>x. f x y) xs"
        by (auto simp: broadcast_def split: list.splits)
      with y nx show ?thesis by (auto simp: compat_def blen_def bget_def)
    next
      case ny: False
      with False nx assms show ?thesis
        by (auto simp: broadcast_def split: list.splits)
    qed
  qed
qed

lemma broadcast_defined:
  assumes "compat (length xs) (length ys)"
  shows "\<exists>zs. broadcast f xs ys = Inr zs"
proof (cases "length xs = length ys")
  case True
  then show ?thesis by (simp add: broadcast_def)
next
  case False
  with assms consider "length xs = 1" | "length xs \<noteq> 1" "length ys = 1"
    by (auto simp: compat_def)
  then show ?thesis
  proof cases
    case 1
    then obtain x where "xs = [x]" by (cases xs) auto
    with False show ?thesis by (simp add: broadcast_def)
  next
    case 2
    then obtain y where "ys = [y]" by (cases ys) auto
    with 2 False show ?thesis by (auto simp: broadcast_def split: list.splits)
  qed
qed

lemma bget_broadcast:
  assumes "broadcast f xs ys = Inr zs" and "valid (length zs) k"
  shows "valid (length xs) k \<and> valid (length ys) k \<and> bget zs k = f (bget xs k) (bget ys k)"
proof -
  note b = broadcast_Inr [OF assms(1)]
  show ?thesis
  proof (cases "length zs = 1")
    case True
    with b have l: "length xs = 1" "length ys = 1"
      by (auto simp: blen_def compat_def split: if_splits)
    from b True have "zs ! 0 = f (bget xs 0) (bget ys 0)" by simp
    with True l show ?thesis by (simp add: bget_def valid_def)
  next
    case False
    with assms(2) have k: "k < length zs" by (simp add: valid_def)
    with b have "zs ! k = f (bget xs k) (bget ys k)" by blast
    moreover from b k have "valid (length xs) k" "valid (length ys) k"
      by (auto simp: blen_def compat_def valid_def split: if_splits)
    ultimately show ?thesis using False by (simp add: bget_def)
  qed
qed

lemma fuse_lengths:
  assumes "compat a c" "compat c b" "compat (blen c b) d"
    "compat a e" "compat (blen a e) b" "compat c (blen (blen a e) b)"
    "compat (blen c (blen (blen a e) b)) d"
  shows "compat (blen a c) e \<and> compat (blen (blen a c) e) (blen (blen c b) d) \<and>
     blen (blen (blen a c) e) (blen (blen c b) d) = blen (blen c (blen (blen a e) b)) d"
  using assms unfolding blen_def compat_def by (auto split: if_splits)

lemma bget_nth: "k < length zs \<Longrightarrow> bget zs k = zs ! k"
  by (auto simp: bget_def)

lemma valid_lt: "k < n \<Longrightarrow> valid n k"
  by (simp add: valid_def)

lemma affine_Inr:
  "affine s b x = Inr y \<Longrightarrow> \<exists>u. np_mul s x = Inr u \<and> np_add u b = Inr y"
  by (cases "np_mul s x") (simp_all add: affine_def)

lemma fused_equiv:
  fixes s0 :: "'a::{times,plus} list"
  assumes ex: "exact_arithmetic (times :: 'a \<Rightarrow> 'a \<Rightarrow> 'a) plus"
    and s2: "np_mul s0 s1 = Inr s2" and t: "np_mul s1 b0 = Inr t" and b2: "np_add t b1 = Inr b2"
    and y: "affine s0 b0 x = Inr y" and z: "affine s1 b1 y = Inr z"
  shows "affine s2 b2 x = Inr z"
proof -
  have alg: "p * (q * r + c) + d = (q * p) * r + (p * c + d)" for p q r c d :: 'a
  proof -
    from ex have co: "\<And>a b :: 'a. a * b = b * a"
      and as: "\<And>a b c :: 'a. (a * b) * c = a * (b * c)"
      and aa: "\<And>a b c :: 'a. (a + b) + c = a + (b + c)"
      and di: "\<And>a b c :: 'a. a * (b + c) = a * b + a * c"
      unfolding exact_arithmetic_def by blast+
    have "p * (q * r + c) + d = (p * (q * r) + p * c) + d" by (simp only: di)
    also have "\<dots> = ((p * q) * r + p * c) + d" by (simp only: as)
    also have "\<dots> = ((q * p) * r + p * c) + d" by (simp only: co [of p q])
    also have "\<dots> = (q * p) * r + (p * c + d)" by (rule aa)
    finally show ?thesis .
  qed
  from affine_Inr [OF y] obtain u where u: "np_mul s0 x = Inr u" and uy: "np_add u b0 = Inr y"
    by blast
  from affine_Inr [OF z] obtain v where v: "np_mul s1 y = Inr v" and vz: "np_add v b1 = Inr z"
    by blast
  note defs = np_mul_def np_add_def
  note L1 = broadcast_Inr [OF s2 [unfolded defs]]
  note L2 = broadcast_Inr [OF t [unfolded defs]]
  note L3 = broadcast_Inr [OF b2 [unfolded defs]]
  note L4 = broadcast_Inr [OF u [unfolded defs]]
  note L5 = broadcast_Inr [OF uy [unfolded defs]]
  note L6 = broadcast_Inr [OF v [unfolded defs]]
  note L7 = broadcast_Inr [OF vz [unfolded defs]]
  have len: "compat (length s2) (length x) \<and>
     compat (blen (length s2) (length x)) (length b2) \<and>
     blen (blen (length s2) (length x)) (length b2) = length z"
    using fuse_lengths [of "length s0" "length s1" "length b0" "length b1" "length x"]
      L1 L2 L3 L4 L5 L6 L7 by simp
  from len broadcast_defined obtain u' where u': "np_mul s2 x = Inr u'"
    unfolding defs by blast
  note M1 = broadcast_Inr [OF u' [unfolded defs]]
  from len M1 have "compat (length u') (length b2)" by simp
  from broadcast_defined [OF this] obtain z' where z': "np_add u' b2 = Inr z'"
    unfolding defs by blast
  note M2 = broadcast_Inr [OF z' [unfolded defs]]
  have lz: "length z' = length z" using len M1 M2 by simp
  have "z' ! k = z ! k" if k: "k < length z" for k
  proof -
    have vz0: "valid (length z) k" using k by (rule valid_lt)
    from bget_broadcast [OF vz [unfolded defs] vz0] have
      z1: "bget z k = bget v k + bget b1 k" and vv: "valid (length v) k" by simp_all
    from bget_broadcast [OF v [unfolded defs] vv] have
      v1: "bget v k = bget s1 k * bget y k" and vy: "valid (length y) k" by simp_all
    from bget_broadcast [OF uy [unfolded defs] vy] have
      y1: "bget y k = bget u k + bget b0 k" and vu: "valid (length u) k" by simp_all
    from bget_broadcast [OF u [unfolded defs] vu] have
      u1: "bget u k = bget s0 k * bget x k" by simp
    have vz': "valid (length z') k" using k lz by (simp add: valid_def)
    from bget_broadcast [OF z' [unfolded defs] vz'] have
      z2: "bget z' k = bget u' k + bget b2 k" and vu': "valid (length u') k"
      and vb2: "valid (length b2) k" by simp_all
    from bget_broadcast [OF u' [unfolded defs] vu'] have
      u2: "bget u' k = bget s2 k * bget x k" and vs2: "valid (length s2) k" by simp_all
    from bget_broadcast [OF s2 [unfolded defs] vs2] have
      s21: "bget s2 k = bget s0 k * bget s1 k" by simp
    from bget_broadcast [OF b2 [unfolded defs] vb2] have
      b21: "bget b2 k = bget t k + bget b1 k" and vt: "valid (length t) k" by simp_all
    from bget_broadcast [OF t [unfolded defs] vt] have
      t1: "bget t k = bget s1 k * bget b0 k" by simp
    have "bget z' k = bget z k"
      unfolding z1 v1 y1 u1 z2 u2 s21 b21 t1 by (rule alg [symmetric])
    with k lz show ?thesis by (simp add: bget_nth)
  qed
  with lz have "z' = z" by (simp add: nth_equalityI)
  with u' z' show ?thesis by (simp add: affine_def)
qed

section \<open>Properties of FuseConsecutiveBatchNormalization\<close>

lemma fuse_transform_Inr:
  assumes t: "FuseConsecutiveBatchNormalization_transform model node = Inr (model', b)"
  shows "\<exists>bn0 ws0 wb0 ws1 wb1 s2 s1b0 b2.
     get_input_node model node = Some bn0 \<and>
     map_of (weights bn0) ''scale'' = Some ws0 \<and> map_of (weights bn0) ''bias'' = Some wb0 \<and>
     map_of (weights node) ''scale'' = Some ws1 \<and> map_of (weights node) ''bias'' = Some wb1 \<and>
     np_mul (data ws0) (data ws1) = Inr s2 \<and> np_mul (data ws1) (data wb0) = Inr s1b0 \<and>
     np_add s1b0 (data wb1) = Inr b2 \<and>
     remove_node (update_node model
        (bn0\<lparr>weights := AList.update ''bias'' (wb0\<lparr>data := b2\<rparr>)
           (AList.update ''scale'' (ws0\<lparr>data := s2\<rparr>) (weights bn0))\<rparr>)) node True = Inr model' \<and>
     b = True"
proof -
  note d = FuseConsecutiveBatchNormalization_transform_def
  obtain bn0 where bn0: "get_input_node model node = Some bn0"
    using t by (cases "get_input_node model node") (simp_all add: d)
  obtain ws0 where ws0: "map_of (weights bn0) ''scale'' = Some ws0"
    using t bn0 by (cases "map_of (weights bn0) ''scale''") (simp_all add: d)
  obtain wb0 where wb0: "map_of (weights bn0) ''bias'' = Some wb0"
    using t bn0 ws0 by (cases "map_of (weights bn0) ''bias''") (simp_all add: d)
  obtain ws1 where ws1: "map_of (weights node) ''scale'' = Some ws1"
    using t bn0 ws0 wb0 by (cases "map_of (weights node) ''scale''") (simp_all add: d)
  obtain wb1 where wb1: "map_of (weights node) ''bias'' = Some wb1"
    using t bn0 ws0 wb0 ws1 by (cases "map_of (weights node) ''bias''") (simp_all add: d)
  obtain s2 where s2: "np_mul (data ws0) (data ws1) = Inr s2"
    using t bn0 ws0 wb0 ws1 wb1
    by (cases "np_mul (data ws0) (data ws1)") (simp_all add: d)
  obtain s1b0 where s1b0: "np_mul (data ws1) (data wb0) = Inr s1b0"
    using t bn0 ws0 wb0 ws1 wb1 s2
    by (cases "np_mul (data ws1) (data wb0)") (simp_all add: d)
  obtain b2 where b2: "np_add s1b0 (data wb1) = Inr b2"
    using t bn0 ws0 wb0 ws1 wb1 s2 s1b0
    by (cases "np_add s1b0 (data wb1)") (simp_all add: d)
  define m1 where "m1 = update_node model
        (bn0\<lparr>weights := AList.update ''bias'' (wb0\<lparr>data := b2\<rparr>)
           (AList.update ''scale'' (ws0\<lparr>data := s2\<rparr>) (weights bn0))\<rparr>)"
  have t1: "(case remove_node m1 node True of Inl e \<Rightarrow> Inl e | Inr model \<Rightarrow> Inr (model, True))
      = Inr (model', b)"
    using t bn0 ws0 wb0 ws1 wb1 s2 s1b0 b2 by (simp add: d m1_def)
  then obtain m2 where m2: "remove_node m1 node True = Inr m2"
    by (cases "remove_node m1 node True") simp_all
  with t1 have "m2 = model'" "b = True" by simp_all
  with bn0 ws0 wb0 ws1 wb1 s2 s1b0 b2 m2 show ?thesis
    unfolding m1_def by blast
qed

lemma remove_node_Inr:
  assumes "remove_node m node True = Inr m'"
  shows "\<exists>i ins out outs. inputs node = i # ins \<and> outputs node = out # outs \<and>
     m' = m\<lparr>graph := map (rewire out i) (filter (\<lambda>n. name n \<noteq> name node) (graph m))\<rparr>"
proof (cases "inputs node")
  case Nil
  with assms show ?thesis by (simp add: remove_node_def)
next
  case (Cons i ins)
  show ?thesis
  proof (cases "outputs node")
    case Nil
    with Cons assms show ?thesis by (simp add: remove_node_def)
  next
    case (Cons out outs)
    with \<open>inputs node = i # ins\<close> assms show ?thesis
      by (auto simp: remove_node_def)
  qed
qed

lemma filter_name_length:
  "distinct (map name xs) \<Longrightarrow> n \<in> set xs \<Longrightarrow>
   length (filter (\<lambda>x. name x \<noteq> name n) xs) + 1 = length xs"
proof (induction xs)
  case Nil
  then show ?case by simp
next
  case (Cons x xs)
  show ?case
  proof (cases "x = n")
    case True
    with Cons.prems have "\<forall>y \<in> set xs. name y \<noteq> name n" by (force simp: image_iff)
    then have "filter (\<lambda>x. name x \<noteq> name n) xs = xs" by (simp add: filter_id_conv)
    with True show ?thesis by simp
  next
    case False
    with Cons.prems have "n \<in> set xs" "name x \<noteq> name n" by auto
    with Cons show ?thesis by simp
  qed
qed

lemma get_input_node_Some:
  "get_input_node model node = Some bn0 \<Longrightarrow>
   \<exists>i ins. inputs node = i # ins \<and> bn0 \<in> set (graph model) \<and> take 1 (outputs bn0) = [i]"
  by (cases "inputs node") (auto simp: get_input_node_def dest: producer_Some)

lemma name_rewire [simp]: "name (rewire a b n) = name n"
  by (simp add: rewire_def)

lemma weights_rewire [simp]: "weights (rewire a b n) = weights n"
  by (simp add: rewire_def)

lemma inputs_rewire: "inputs (rewire a b n) = map (\<lambda>x. if x = a then b else x) (inputs n)"
  by (simp add: rewire_def)

lemma filter_update:
  "name n' = nm \<Longrightarrow>
   filter (\<lambda>x. name x \<noteq> k) (map (\<lambda>x. if name x = nm then n' else x) xs) =
   map (\<lambda>x. if name x = nm then n' else x) (filter (\<lambda>x. name x \<noteq> k) xs)"
  by (induction xs) auto

lemma fuse_graph:
  assumes t: "FuseConsecutiveBatchNormalization_transform model node = Inr (model', b)"
  shows "\<exists>bn0 ws0 wb0 ws1 wb1 s2 s1b0 b2 i ins out outs.
     get_input_node model node = Some bn0 \<and>
     map_of (weights bn0) ''scale'' = Some ws0 \<and> map_of (weights bn0) ''bias'' = Some wb0 \<and>
     map_of (weights node) ''scale'' = Some ws1 \<and> map_of (weights node) ''bias'' = Some wb1 \<and>
     np_mul (data ws0) (data ws1) = Inr s2 \<and> np_mul (data ws1) (data wb0) = Inr s1b0 \<and>
     np_add s1b0 (data wb1) = Inr b2 \<and>
     inputs node = i # ins \<and> outputs node = out # outs \<and>
     graph model' =
       map (\<lambda>n. rewire out i
             (if name n = name bn0
              then bn0\<lparr>weights := AList.update ''bias'' (wb0\<lparr>data := b2\<rparr>)
                     (AList.update ''scale'' (ws0\<lparr>data := s2\<rparr>) (weights bn0))\<rparr>
              else n))
         (filter (\<lambda>n. name n \<noteq> name node) (graph model)) \<and>
     b = True"
proof -
  from fuse_transform_Inr [OF t] obtain bn0 ws0 wb0 ws1 wb1 s2 s1b0 b2 where
    f: "get_input_node model node = Some bn0"
     "map_of (weights bn0) ''scale'' = Some ws0" "map_of (weights bn0) ''bias'' = Some wb0"
     "map_of (weights node) ''scale'' = Some ws1" "map_of (weights node) ''bias'' = Some wb1"
     "np_mul (data ws0) (data ws1) = Inr s2" "np_mul (data ws1) (data wb0) = Inr s1b0"
     "np_add s1b0 (data wb1) = Inr b2" and
    rm: "remove_node (update_node model
        (bn0\<lparr>weights := AList.update ''bias'' (wb0\<lparr>data := b2\<rparr>)
           (AList.update ''scale'' (ws0\<lparr>data := s2\<rparr>) (weights bn0))\<rparr>)) node True = Inr model'"
    and b: "b = True"
    by blast
  define bn0' where "bn0' = bn0\<lparr>weights := AList.update ''bias'' (wb0\<lparr>data := b2\<rparr>)
           (AList.update ''scale'' (ws0\<lparr>data := s2\<rparr>) (weights bn0))\<rparr>"
  have nm: "name bn0' = name bn0" by (simp add: bn0'_def)
  from remove_node_Inr [OF rm] obtain i ins out outs where
    io: "inputs node = i # ins" "outputs node = out # outs" and
    g: "graph model' = map (rewire out i)
          (filter (\<lambda>n. name n \<noteq> name node) (graph (update_node model bn0')))"
    unfolding bn0'_def by auto
  have "filter (\<lambda>n. name n \<noteq> name node) (graph (update_node model bn0')) =
        map (\<lambda>n. if name n = name bn0 then bn0' else n)
          (filter (\<lambda>n. name n \<noteq> name node) (graph model))"
    using filter_update [OF nm, of "name node" "graph model"]
    by (simp add: update_node_def nm)
  with g have "graph model' =
      map (\<lambda>n. rewire out i (if name n = name bn0 then bn0' else n))
        (filter (\<lambda>n. name n \<noteq> name node) (graph model))"
    by simp
  with f io b show ?thesis unfolding bn0'_def by blast
qed

declare times_double.simps [simp del] plus_double.simps [simp del]
  normalize_double.simps [simp del] bit_length.simps [simp del]

lemma double_products:
  "double_0_1 * double_3 = Double 1351079888211149 (- 52)"
  "double_3 * double_0_1 = Double 1351079888211149 (- 52)"
  "double_0_1 * double_5 = Double 1 (- 1)"
  "double_3 * Double 5404319552844595 (- 53) = Double 2026619832316723 (- 50)"
  "Double 1351079888211149 (- 52) * double_5 = Double 6755399441055745 (- 52)"
  by code_simp+

lemma double_sums:
  "Double 1351079888211149 (- 52) + double_0_2 = Double 1 (- 1)"
  "Double 1 (- 1) + double_0_1 = Double 5404319552844595 (- 53)"
  "Double 2026619832316723 (- 50) + double_0_2 = Double 9007199254740991 (- 52)"
  "Double 6755399441055745 (- 52) + Double 1 (- 1) = Double 1 1"
  by code_simp+

lemmas double_defs = double_weights_def double_bn0_def double_bn1_def double_act_def
  double_model_def


lemmas bn_defs = bn_weights_def bn0_node_def bn1_node_def act_node_def bn_model_def

lemma bn1_transforms:
  "\<exists>model'. FuseConsecutiveBatchNormalization_transform bn_model bn1_node = Inr (model', True)"
  by (simp add: FuseConsecutiveBatchNormalization_transform_def bn_defs graph_defs Let_def)

lemma bn1_matches: "FuseConsecutiveBatchNormalization_match bn_model bn1_node"
  by (simp add: FuseConsecutiveBatchNormalization_match_def is_BatchNormalization_def bn_defs
      get_input_node_def producer_def)

lemma bn1_input: "get_input_node bn_model bn1_node = Some bn0_node"
  by (simp add: bn_defs get_input_node_def producer_def)


text \<open>
  Claim C1, as amended. When \<^verbatim>\<open>transform\<close> completes on a node with input node
  \<open>bn0\<close>, whose weights are \<open>(s0, b0)\<close>, and own weights \<open>(s1, b1)\<close>, the tensors
  \<^verbatim>\<open>s2 = s0 * s1\<close> and \<^verbatim>\<open>b2 = s1 * b0 + b1\<close> are defined, with the operands in this
  order and in whatever arithmetic the elements have, and are the scale and bias data of
  the input node in the graph that is left. If that arithmetic is exact (multiplication
  commutative and associative, addition associative, multiplication distributive over
  addition, as for integers and reals), then for every input \<open>x\<close> on which the two affine
  maps apply one after the other, the fused map gives the same tensor:
  \<^verbatim>\<open>s1*(s0*x+b0)+b1 = s2*x+b2\<close>.
\<close>

theorem fusion_weights_and_equivalence:
  fixes model :: "'a::{times,plus} model"
  assumes t: "FuseConsecutiveBatchNormalization_transform model node = Inr (model', b)"
    and bn0: "get_input_node model node = Some bn0"
    and w: "map_of (weights bn0) ''scale'' = Some ws0" "map_of (weights bn0) ''bias'' = Some wb0"
      "map_of (weights node) ''scale'' = Some ws1" "map_of (weights node) ''bias'' = Some wb1"
    and ne: "name bn0 \<noteq> name node"
  shows "\<exists>s2 s1b0 b2.
     np_mul (data ws0) (data ws1) = Inr s2 \<and>
     np_mul (data ws1) (data wb0) = Inr s1b0 \<and> np_add s1b0 (data wb1) = Inr b2 \<and>
     (\<exists>n \<in> set (graph model'). name n = name bn0 \<and>
        map_of (weights n) ''scale'' = Some (ws0\<lparr>data := s2\<rparr>) \<and>
        map_of (weights n) ''bias'' = Some (wb0\<lparr>data := b2\<rparr>)) \<and>
     (exact_arithmetic (times :: 'a \<Rightarrow> 'a \<Rightarrow> 'a) plus \<longrightarrow>
        (\<forall>x y z. affine (data ws0) (data wb0) x = Inr y \<longrightarrow>
           affine (data ws1) (data wb1) y = Inr z \<longrightarrow> affine s2 b2 x = Inr z))"
proof -
  from fuse_graph [OF t] obtain bn0x ws0x wb0x ws1x wb1x s2 s1b0 b2 i out where
    x: "get_input_node model node = Some bn0x"
      "map_of (weights bn0x) ''scale'' = Some ws0x" "map_of (weights bn0x) ''bias'' = Some wb0x"
      "map_of (weights node) ''scale'' = Some ws1x" "map_of (weights node) ''bias'' = Some wb1x" and
    s2x: "np_mul (data ws0x) (data ws1x) = Inr s2" and
    s1b0x: "np_mul (data ws1x) (data wb0x) = Inr s1b0" and
    b2x: "np_add s1b0 (data wb1x) = Inr b2" and
    gx: "graph model' =
       map (\<lambda>n. rewire out i
             (if name n = name bn0x
              then bn0x\<lparr>weights := AList.update ''bias'' (wb0x\<lparr>data := b2\<rparr>)
                     (AList.update ''scale'' (ws0x\<lparr>data := s2\<rparr>) (weights bn0x))\<rparr>
              else n))
         (filter (\<lambda>n. name n \<noteq> name node) (graph model))"
    by blast
  from x bn0 w have eq: "bn0x = bn0" "ws0x = ws0" "wb0x = wb0" "ws1x = ws1" "wb1x = wb1"
    by simp_all
  note s2 = s2x [unfolded eq] and s1b0 = s1b0x [unfolded eq] and b2 = b2x [unfolded eq]
    and g = gx [unfolded eq]
  define bn0' where "bn0' = bn0\<lparr>weights := AList.update ''bias'' (wb0\<lparr>data := b2\<rparr>)
                     (AList.update ''scale'' (ws0\<lparr>data := s2\<rparr>) (weights bn0))\<rparr>"
  from get_input_node_Some [OF bn0] have "bn0 \<in> set (graph model)" by blast
  with ne have "bn0 \<in> set (filter (\<lambda>n. name n \<noteq> name node) (graph model))" by simp
  then have "rewire out i bn0' \<in> set (graph model')"
    unfolding g bn0'_def by force
  moreover have "name (rewire out i bn0') = name bn0"
    "map_of (weights (rewire out i bn0')) ''scale'' = Some (ws0\<lparr>data := s2\<rparr>)"
    "map_of (weights (rewire out i bn0')) ''bias'' = Some (wb0\<lparr>data := b2\<rparr>)"
    by (simp_all add: bn0'_def update_conv')
  ultimately have n: "\<exists>n \<in> set (graph model'). name n = name bn0 \<and>
        map_of (weights n) ''scale'' = Some (ws0\<lparr>data := s2\<rparr>) \<and>
        map_of (weights n) ''bias'' = Some (wb0\<lparr>data := b2\<rparr>)"
    by blast
  have "exact_arithmetic (times :: 'a \<Rightarrow> 'a \<Rightarrow> 'a) plus \<longrightarrow>
        (\<forall>x y z. affine (data ws0) (data wb0) x = Inr y \<longrightarrow>
           affine (data ws1) (data wb1) y = Inr z \<longrightarrow> affine s2 b2 x = Inr z)"
    using fused_equiv [OF _ s2 s1b0 b2] by blast
  with s2 s1b0 b2 n show ?thesis by blast
qed

theorem fusion_weights_and_equivalence_witness:
  "exact_arithmetic (times :: real \<Rightarrow> real \<Rightarrow> real) plus \<and>
   (\<exists>model'. FuseConsecutiveBatchNormalization_transform bn_model bn1_node = Inr (model', True) \<and>
     (\<exists>n \<in> set (graph model'). name n = ''bn0'' \<and>
        map_of (weights n) ''scale'' = Some \<lparr>data = [6], data_unquantized = None, quantizer = None\<rparr> \<and>
        map_of (weights n) ''bias'' = Some \<lparr>data = [3], data_unquantized = None, quantizer = None\<rparr>)) \<and>
   affine [2] [1] [5] = Inr [11 :: real] \<and> affine [3] [0] [11] = Inr [33 :: real] \<and>
   affine [6] [3] [5] = Inr [33 :: real]"
proof -
  have ex: "exact_arithmetic (times :: real \<Rightarrow> real \<Rightarrow> real) plus"
    by (simp add: exact_arithmetic_def algebra_simps)
  from bn1_transforms obtain model' where
    t: "FuseConsecutiveBatchNormalization_transform bn_model bn1_node = Inr (model', True)"
    by blast
  have w: "map_of (weights bn0_node) ''scale'' = Some \<lparr>data = [2], data_unquantized = None, quantizer = None\<rparr>"
    "map_of (weights bn0_node) ''bias'' = Some \<lparr>data = [1], data_unquantized = None, quantizer = None\<rparr>"
    "map_of (weights bn1_node) ''scale'' = Some \<lparr>data = [3], data_unquantized = None, quantizer = None\<rparr>"
    "map_of (weights bn1_node) ''bias'' = Some \<lparr>data = [0], data_unquantized = None, quantizer = None\<rparr>"
    by (simp_all add: bn_defs)
  have ne: "name bn0_node \<noteq> name bn1_node" by (simp add: bn_defs)
  from fusion_weights_and_equivalence [OF t bn1_input w ne] ex obtain s2 s1b0 b2 where
    a: "np_mul [2] [3] = Inr s2" "np_mul [3] [1] = Inr s1b0" "np_add s1b0 [0] = Inr b2" and
    n: "\<exists>n \<in> set (graph model'). name n = name bn0_node \<and>
        map_of (weights n) ''scale'' = Some \<lparr>data = s2, data_unquantized = None, quantizer = None\<rparr> \<and>
        map_of (weights n) ''bias'' = Some \<lparr>data = b2, data_unquantized = None, quantizer = None\<rparr>" and
    e: "\<forall>x y z. affine [2] [1] x = Inr y \<longrightarrow> affine [3] [0] y = Inr z \<longrightarrow> affine s2 b2 x = Inr z"
    by auto
  from a have s2: "s2 = [6]" and b2: "b2 = [3]"
    by (auto simp: np_mul_def np_add_def broadcast_def)
  have y: "affine [2] [1] [5] = Inr [11 :: real]" and z: "affine [3] [0] [11] = Inr [33 :: real]"
    by (simp_all add: affine_def np_mul_def np_add_def broadcast_def)
  from e y z have "affine s2 b2 [5] = Inr [33]" by blast
  with n t y z s2 b2 ex show ?thesis by (auto simp: bn0_node_def)
qed

text \<open>
  The claim as stated fails on arrays of doubles. With \<open>(s0, b0) = (0.1, 0.1)\<close>,
  \<open>(s1, b1) = (3.0, 0.2)\<close> and \<open>x = 5.0\<close>, \<^verbatim>\<open>match\<close> is true and \<^verbatim>\<open>transform\<close> stores
  \<open>s2 = 0.30000000000000004\<close> and \<open>b2 = 0.5\<close>; the two maps one after the other give
  \<open>0.6\<close> and then \<open>1.9999999999999998\<close>, the fused map gives \<open>2.0\<close>.
\<close>

theorem fusion_weights_and_equivalence_counterexample:
  "FuseConsecutiveBatchNormalization_match double_model double_bn1 \<and>
   FuseConsecutiveBatchNormalization_transform double_model double_bn1 =
     Inr (\<lparr>graph = [double_bn0\<lparr>weights :=
                        double_weights (Double 1351079888211149 (- 52)) (Double 1 (- 1))\<rparr>,
                     double_act\<lparr>inputs := [''bn0'']\<rparr>],
           default_precision = FixedPrecisionType 16 6 True None None None\<rparr>, True) \<and>
   affine [double_0_1] [double_0_1] [double_5] = Inr [Double 5404319552844595 (- 53)] \<and>
   affine [double_3] [double_0_2] [Double 5404319552844595 (- 53)]
     = Inr [Double 9007199254740991 (- 52)] \<and>
   affine [Double 1351079888211149 (- 52)] [Double 1 (- 1)] [double_5] = Inr [Double 1 1] \<and>
   Double 9007199254740991 (- 52) \<noteq> Double 1 1"
  by (simp add: FuseConsecutiveBatchNormalization_match_def is_BatchNormalization_def
      FuseConsecutiveBatchNormalization_transform_def double_defs graph_defs Let_def
      affine_def double_products double_sums)

text \<open>
  Claim C9. On a node of a graph with unique names on which \<^verbatim>\<open>match\<close> is true, a
  \<^verbatim>\<open>transform\<close> that completes returns \<^verbatim>\<open>True\<close>; the graph has exactly one node
  less and no node of the removed node's name; the graph that is left is the old one
  without that node, in the same order, where the input node has new weights (entries
  other than scale and bias as before), and every input that was the removed node's
  output is now the input node's output, so that no node consumes the removed output any
  more. Nothing else differs.
\<close>

theorem fusion_removes_node:
  assumes m: "FuseConsecutiveBatchNormalization_match model node"
    and mem: "node \<in> set (graph model)" and dist: "distinct (map name (graph model))"
    and t: "FuseConsecutiveBatchNormalization_transform model node = Inr (model', b)"
  shows "b = True \<and> length (graph model') + 1 = length (graph model) \<and>
    (\<forall>n \<in> set (graph model'). name n \<noteq> name node) \<and>
    (\<exists>bn0 ws i out.
       get_input_node model node = Some bn0 \<and> is_BatchNormalization bn0 \<and>
       take 1 (outputs bn0) = [i] \<and> take 1 (inputs node) = [i] \<and> take 1 (outputs node) = [out] \<and>
       (\<forall>k. k \<noteq> ''scale'' \<and> k \<noteq> ''bias'' \<longrightarrow> map_of ws k = map_of (weights bn0) k) \<and>
       graph model' =
         map (\<lambda>n. rewire out i (if name n = name bn0 then bn0\<lparr>weights := ws\<rparr> else n))
           (filter (\<lambda>n. name n \<noteq> name node) (graph model)) \<and>
       (out \<noteq> i \<longrightarrow> (\<forall>n \<in> set (graph model'). out \<notin> set (inputs n))))"
proof -
  from fuse_graph [OF t] obtain bn0 ws0 wb0 s2 b2 i ins out outs where
    bn0: "get_input_node model node = Some bn0" and
    io: "inputs node = i # ins" "outputs node = out # outs" and
    g: "graph model' =
       map (\<lambda>n. rewire out i
             (if name n = name bn0
              then bn0\<lparr>weights := AList.update ''bias'' (wb0\<lparr>data := b2\<rparr>)
                     (AList.update ''scale'' (ws0\<lparr>data := s2\<rparr>) (weights bn0))\<rparr>
              else n))
         (filter (\<lambda>n. name n \<noteq> name node) (graph model))" and
    b: "b = True"
    by blast
  define ws where "ws = AList.update ''bias'' (wb0\<lparr>data := b2\<rparr>)
                     (AList.update ''scale'' (ws0\<lparr>data := s2\<rparr>) (weights bn0))"
  have len: "length (graph model') + 1 = length (graph model)"
    using filter_name_length [OF dist mem] by (simp add: g)
  have names: "\<forall>n \<in> set (graph model'). name n \<noteq> name node"
    unfolding g by auto
  from m bn0 have bn: "is_BatchNormalization bn0"
    by (simp add: FuseConsecutiveBatchNormalization_match_def)
  from get_input_node_Some [OF bn0] io have o0: "take 1 (outputs bn0) = [i]" by auto
  have fr: "\<forall>k. k \<noteq> ''scale'' \<and> k \<noteq> ''bias'' \<longrightarrow> map_of ws k = map_of (weights bn0) k"
    by (simp add: ws_def update_conv')
  have cons: "out \<noteq> i \<longrightarrow> (\<forall>n \<in> set (graph model'). out \<notin> set (inputs n))"
  proof (intro impI ballI)
    fix n
    assume ne: "out \<noteq> i" and "n \<in> set (graph model')"
    then obtain m where "n = rewire out i m" unfolding g by (auto simp: image_iff)
    with ne show "out \<notin> set (inputs n)" by (auto simp: inputs_rewire)
  qed
  have g': "graph model' =
         map (\<lambda>n. rewire out i (if name n = name bn0 then bn0\<lparr>weights := ws\<rparr> else n))
           (filter (\<lambda>n. name n \<noteq> name node) (graph model))"
    using g unfolding ws_def .
  have i1: "take 1 (inputs node) = [i]" and o1: "take 1 (outputs node) = [out]"
    using io by simp_all
  have "\<exists>bn0 ws i out.
       get_input_node model node = Some bn0 \<and> is_BatchNormalization bn0 \<and>
       take 1 (outputs bn0) = [i] \<and> take 1 (inputs node) = [i] \<and> take 1 (outputs node) = [out] \<and>
       (\<forall>k. k \<noteq> ''scale'' \<and> k \<noteq> ''bias'' \<longrightarrow> map_of ws k = map_of (weights bn0) k) \<and>
       graph model' =
         map (\<lambda>n. rewire out i (if name n = name bn0 then bn0\<lparr>weights := ws\<rparr> else n))
           (filter (\<lambda>n. name n \<noteq> name node) (graph model)) \<and>
       (out \<noteq> i \<longrightarrow> (\<forall>n \<in> set (graph model'). out \<notin> set (inputs n)))"
    using bn0 bn o0 i1 o1 fr g' cons by blast
  with b len names show ?thesis by blast
qed


theorem fusion_removes_node_witness:
  "FuseConsecutiveBatchNormalization_match bn_model bn1_node \<and>
   bn1_node \<in> set (graph bn_model) \<and> distinct (map name (graph bn_model)) \<and>
   (\<exists>model'. FuseConsecutiveBatchNormalization_transform bn_model bn1_node = Inr (model', True) \<and>
      length (graph model') + 1 = length (graph bn_model) \<and>
      (\<forall>n \<in> set (graph model'). name n \<noteq> ''bn1'' \<and> ''bn1'' \<notin> set (inputs n)))"
proof -
  from bn1_transforms obtain model' where
    t: "FuseConsecutiveBatchNormalization_transform bn_model bn1_node = Inr (model', True)"
    by blast
  have mem: "bn1_node \<in> set (graph bn_model)" by (simp add: bn_model_def)
  have dist: "distinct (map name (graph bn_model))" by (simp add: bn_defs)
  note r = fusion_removes_node [OF bn1_matches mem dist t]
  from r have l: "length (graph model') + 1 = length (graph bn_model)"
    by (rule conjunct1 [OF conjunct2])
  from r have n: "\<forall>n \<in> set (graph model'). name n \<noteq> name bn1_node"
    by (rule conjunct1 [OF conjunct2 [OF conjunct2]])
  from r have "\<exists>bn0 ws i out.
       get_input_node bn_model bn1_node = Some bn0 \<and> is_BatchNormalization bn0 \<and>
       take 1 (outputs bn0) = [i] \<and> take 1 (inputs bn1_node) = [i] \<and>
       take 1 (outputs bn1_node) = [out] \<and>
       (\<forall>k. k \<noteq> ''scale'' \<and> k \<noteq> ''bias'' \<longrightarrow> map_of ws k = map_of (weights bn0) k) \<and>
       graph model' =
         map (\<lambda>n. rewire out i (if name n = name bn0 then bn0\<lparr>weights := ws\<rparr> else n))
           (filter (\<lambda>n. name n \<noteq> name bn1_node) (graph bn_model)) \<and>
       (out \<noteq> i \<longrightarrow> (\<forall>n \<in> set (graph model'). out \<notin> set (inputs n)))"
    by (rule conjunct2 [OF conjunct2 [OF conjunct2]])
  then obtain i out where
    i: "take 1 (inputs bn1_node) = [i]" and out: "take 1 (outputs bn1_node) = [out]" and
    c: "out \<noteq> i \<longrightarrow> (\<forall>n \<in> set (graph model'). out \<notin> set (inputs n))"
    by (elim exE conjE)
  from i out have "i = ''bn0''" "out = ''bn1''" by (simp_all add: bn1_node_def)
  with c have "\<forall>n \<in> set (graph model'). ''bn1'' \<notin> set (inputs n)" by simp
  moreover have "name bn1_node = ''bn1''" by (simp add: bn1_node_def)
  ultimately have "\<forall>n \<in> set (graph model'). name n \<noteq> ''bn1'' \<and> ''bn1'' \<notin> set (inputs n)"
    using n by simp
  with bn1_matches mem dist t l show ?thesis by blast
qed

end
